theory Spec2Isabelle
  imports Complex_Main "HOL-Library.Word"
begin

section \<open>Go values used by decode.go\<close>

type_synonym byte = "8 word"

text \<open>
  \<^verbatim>\<open>error\<close> values: \<^verbatim>\<open>io.EOF\<close>, a \<^verbatim>\<open>*consts.UnexpectedEOF\<close>, or any other error
  (those made with \<^verbatim>\<open>errors.New\<close> carry their message).
\<close>

datatype go_error = EOF | UnexpectedEOF | Error string

text \<open>Run-time panics that the statements of decode.go can raise.\<close>

datatype panic =
  DivideByZero | IndexOutOfRange | SliceBoundsOutOfRange | NilDereference | MakeSliceLenOutOfRange

text \<open>
  How a call ends: it returns its value together with Go's \<^verbatim>\<open>error\<close> result
  (\<open>None\<close> is \<^verbatim>\<open>nil\<close>), it panics, or it waits at \<^verbatim>\<open>d.mux.Lock()\<close> because the mutex
  is held by another goroutine.
\<close>

datatype 'a outcome = Returns 'a "go_error option" | Panics panic | Blocks

text \<open>\<^verbatim>\<open>int64\<close> arithmetic on \<open>int\<close>, with the two's-complement wrap-around written out.\<close>

definition wrap64 :: "int \<Rightarrow> int" where
  "wrap64 x = (x + 2 ^ 63) mod 2 ^ 64 - 2 ^ 63"

definition in_int64 :: "int \<Rightarrow> bool" where
  "in_int64 x \<longleftrightarrow> - (2 ^ 63) \<le> x \<and> x < 2 ^ 63"

text \<open>Go's \<^verbatim>\<open>/\<close> and \<^verbatim>\<open>%\<close> truncate towards zero; the callers check the divisor first.\<close>

definition go_div :: "int \<Rightarrow> int \<Rightarrow> int" where
  "go_div a b = wrap64 (sgn a * sgn b * (\<bar>a\<bar> div \<bar>b\<bar>))"

definition go_mod :: "int \<Rightarrow> int \<Rightarrow> int" where
  "go_mod a b = sgn a * (\<bar>a\<bar> mod \<bar>b\<bar>)"

text \<open>\<^verbatim>\<open>io.SeekStart\<close>, \<^verbatim>\<open>io.SeekCurrent\<close>, \<^verbatim>\<open>io.SeekEnd\<close>.\<close>

definition SeekStart :: int where "SeekStart = 0"
definition SeekCurrent :: int where "SeekCurrent = 1"
definition SeekEnd :: int where "SeekEnd = 2"

definition invalidLength :: int where "invalidLength = - 1"

section \<open>\<^verbatim>\<open>float64\<close> values\<close>

text \<open>
  A \<^verbatim>\<open>float64\<close> is a finite value (a \<open>real\<close>; both zeros are \<open>Finite 0\<close>), an infinity or a
  NaN. \<open>f64_round\<close> rounds a real to the nearest \<^verbatim>\<open>float64\<close>, ties to even, as every
  \<^verbatim>\<open>float64\<close> operation of Go does: \<open>binade x\<close> is the exponent \<open>e\<close> with \<open>2^e \<le> x < 2^(e+1)\<close>,
  not below \<open>-1022\<close> (the subnormal range) and 1024 when \<open>x\<close> is beyond the largest binade; the
  significand has 53 bits, so the spacing there is \<open>2^(e - 52)\<close>; a result of \<open>2^1024\<close> or
  more is an infinity.
\<close>

datatype f64 = Finite real | PosInf | NegInf | NaN

definition pow2 :: "int \<Rightarrow> real" where
  "pow2 e = (if 0 \<le> e then 2 ^ nat e else 1 / 2 ^ nat (- e))"

function binade_up :: "real \<Rightarrow> int \<Rightarrow> int" where
  "binade_up x e = (if 1024 \<le> e \<or> x < pow2 (e + 1) then e else binade_up x (e + 1))"
  by pat_completeness auto
termination
  by (relation "measure (\<lambda>(x, e). nat (1024 - e))") auto

function binade_down :: "real \<Rightarrow> int \<Rightarrow> int" where
  "binade_down x e = (if e \<le> - 1022 \<or> pow2 e \<le> x then e else binade_down x (e - 1))"
  by pat_completeness auto
termination
  by (relation "measure (\<lambda>(x, e). nat (e + 1022))") auto

definition binade :: "real \<Rightarrow> int" where
  "binade x = (if 1 \<le> x then binade_up x 0 else binade_down x (- 1))"

definition round_half_even :: "real \<Rightarrow> int" where
  "round_half_even q =
     (if q - of_int \<lfloor>q\<rfloor> < 1 / 2 then \<lfloor>q\<rfloor>
      else if 1 / 2 < q - of_int \<lfloor>q\<rfloor> then \<lfloor>q\<rfloor> + 1
      else if even \<lfloor>q\<rfloor> then \<lfloor>q\<rfloor> else \<lfloor>q\<rfloor> + 1)"

definition f64_round_pos :: "real \<Rightarrow> f64" where
  "f64_round_pos x =
     (if 1024 \<le> binade x then PosInf
      else if pow2 1024
                \<le> of_int (round_half_even (x / pow2 (binade x - 52))) * pow2 (binade x - 52)
      then PosInf
      else Finite (of_int (round_half_even (x / pow2 (binade x - 52))) * pow2 (binade x - 52)))"

definition f64_neg :: "f64 \<Rightarrow> f64" where
  "f64_neg v = (case v of Finite x \<Rightarrow> Finite (- x) | PosInf \<Rightarrow> NegInf | NegInf \<Rightarrow> PosInf
                | NaN \<Rightarrow> NaN)"

definition f64_round :: "real \<Rightarrow> f64" where
  "f64_round x =
     (if x = 0 then Finite 0 else if 0 < x then f64_round_pos x
      else f64_neg (f64_round_pos (- x)))"

text \<open>The conversion \<^verbatim>\<open>float64(n)\<close> of an integer, the product and the comparison \<^verbatim>\<open><\<close>.\<close>

definition f64_of_int :: "int \<Rightarrow> f64" where
  "f64_of_int n = f64_round (of_int n)"

definition f64_sign :: "f64 \<Rightarrow> int" where
  "f64_sign v =
     (case v of Finite x \<Rightarrow> (if x = 0 then 0 else if 0 < x then 1 else - 1)
      | PosInf \<Rightarrow> 1 | NegInf \<Rightarrow> - 1 | NaN \<Rightarrow> 0)"

definition f64_mul :: "f64 \<Rightarrow> f64 \<Rightarrow> f64" where
  "f64_mul a b =
     (case (a, b) of
        (Finite x, Finite y) \<Rightarrow> f64_round (x * y)
      | _ \<Rightarrow>
          if a = NaN \<or> b = NaN then NaN
          else if f64_sign a * f64_sign b = 0 then NaN
          else if 0 < f64_sign a * f64_sign b then PosInf
          else NegInf)"

fun f64_less :: "f64 \<Rightarrow> f64 \<Rightarrow> bool" where
  "f64_less NaN b = False"
| "f64_less a NaN = False"
| "f64_less (Finite x) (Finite y) = (x < y)"
| "f64_less a NegInf = False"
| "f64_less NegInf b = True"
| "f64_less PosInf b = False"
| "f64_less a PosInf = True"

section \<open>The collaborators of the Decoder\<close>

text \<open>
  decode.go calls into the byte source (\<^verbatim>\<open>source\<close>), the frame decoder (\<^verbatim>\<open>frame\<close>) and the
  header parser (\<^verbatim>\<open>frameheader\<close>), which live in other files. They are parameters of the
  model: \<open>'s\<close> is the state of the \<^verbatim>\<open>*source\<close> (reader, position, look-ahead), \<open>'f\<close> a decoded
  \<^verbatim>\<open>*frame.Frame\<close>, \<open>'h\<close> a \<^verbatim>\<open>frameheader.FrameHeader\<close>. Each operation on the source returns
  the source's new state next to its Go results.

  \<^item> \<open>frame_Read s prev\<close> is \<^verbatim>\<open>frame.Read(d.source, d.source.pos, d.frame)\<close>: the frame pointer
    (\<open>None\<close> is \<^verbatim>\<open>nil\<close>) and the error; the middle result is dropped by the caller.
  \<^item> \<open>frame_Decode f v\<close> is \<^verbatim>\<open>f.Decode(v)\<close>.
  \<^item> \<open>source_Seek s off whence\<close> is \<^verbatim>\<open>d.source.Seek(off, whence)\<close>.
  \<^item> \<open>source_isSeeker s\<close> is the type assertion \<^verbatim>\<open>d.source.reader.(io.Seeker)\<close>.
  \<^item> \<open>frameheader_Read s\<close> is \<^verbatim>\<open>frameheader.Read(d.source, d.source.pos)\<close>.
  \<^item> \<open>source_ReadFull s n\<close> is \<^verbatim>\<open>d.source.ReadFull(buf)\<close> for a buffer of \<open>n\<close> bytes.

  One more parameter belongs to the platform: Go leaves the result of converting to
  \<^verbatim>\<open>int64\<close> a \<^verbatim>\<open>float64\<close> that \<^verbatim>\<open>int64\<close> cannot represent (a NaN, an infinity, a value out
  of range) to the implementation; \<open>int64_unrepresentable v\<close> is that result.
\<close>

record ('s, 'f, 'h) env =
  frame_Read :: "'s \<Rightarrow> 'f option \<Rightarrow> ('f option \<times> go_error option) \<times> 's"
  frame_Decode :: "'f \<Rightarrow> real \<Rightarrow> byte list"
  frame_SamplingFrequency :: "'f \<Rightarrow> int \<times> go_error option"
  source_Seek :: "'s \<Rightarrow> int \<Rightarrow> int \<Rightarrow> (go_error + int) \<times> 's"
  source_rewind :: "'s \<Rightarrow> go_error option \<times> 's"
  source_skipTags :: "'s \<Rightarrow> go_error option \<times> 's"
  source_ReadFull :: "'s \<Rightarrow> nat \<Rightarrow> go_error option \<times> 's"
  source_isSeeker :: "'s \<Rightarrow> bool"
  frameheader_Read :: "'s \<Rightarrow> (go_error + ('h \<times> int)) \<times> 's"
  h_BytesPerFrame :: "'h \<Rightarrow> int"
  h_FrameSize :: "'h \<Rightarrow> int \<times> go_error option"
  int64_unrepresentable :: "f64 \<Rightarrow> int"

section \<open>The Decoder\<close>

text \<open>
  The struct \<^verbatim>\<open>Decoder\<close>. \<open>mux\<close> is the state of the \<^verbatim>\<open>sync.Mutex\<close>: \<open>True\<close> while it is
  held. \<^verbatim>\<open>volume\<close> is a \<^verbatim>\<open>float32\<close>; decode.go only stores it, compares it with 0 and 1 and
  hands it to \<^verbatim>\<open>Decode\<close>, so it is a \<open>real\<close> here.
\<close>

record ('s, 'f) Decoder =
  source :: 's
  sampleRate :: int
  length_d :: int
  frameStarts :: "int list"
  buf :: "byte list"
  frame :: "'f option"
  pos :: int
  bytesPerFrame :: int
  mux :: bool
  volume :: real

definition BytesPerFrame :: "('s, 'f) Decoder \<Rightarrow> int" where
  "BytesPerFrame d = bytesPerFrame d"

definition Length :: "('s, 'f) Decoder \<Rightarrow> int" where
  "Length d = length_d d"

definition GetVolume :: "('s, 'f) Decoder \<Rightarrow> real" where
  "GetVolume d = volume d"

definition SetVolume :: "real \<Rightarrow> ('s, 'f) Decoder \<Rightarrow> ('s, 'f) Decoder" where
  "SetVolume v d = d\<lparr>volume := (if v > 1 then 1 else if v < 0 then 0 else v)\<rparr>"

text \<open>
  \<^verbatim>\<open>readFrame\<close>: \<^verbatim>\<open>d.frame\<close> takes whatever \<^verbatim>\<open>frame.Read\<close> returned, also on an error; both
  end-of-file errors become \<^verbatim>\<open>io.EOF\<close>; otherwise the decoded bytes are appended.
\<close>

definition readFrame ::
  "('s, 'f, 'h) env \<Rightarrow> ('s, 'f) Decoder \<Rightarrow> unit outcome \<times> ('s, 'f) Decoder" where
  "readFrame E d =
     (case frame_Read E (source d) (frame d) of
        ((fr, err), s') \<Rightarrow>
          let d1 = d\<lparr>source := s', frame := fr\<rparr> in
          (case err of
             Some e \<Rightarrow>
               if e = EOF then (Returns () (Some EOF), d1)
               else if e = UnexpectedEOF then (Returns () (Some EOF), d1)
               else (Returns () (Some e), d1)
           | None \<Rightarrow>
               (case fr of
                  None \<Rightarrow> (Panics NilDereference, d1)
                | Some f \<Rightarrow>
                    (Returns () None, d1\<lparr>buf := buf d1 @ frame_Decode E f (volume d1)\<rparr>))))"

text \<open>
  \<^verbatim>\<open>Seek\<close>. It never touches \<^verbatim>\<open>d.mux\<close>. The division panics on a zero divisor, an index
  outside \<^verbatim>\<open>d.frameStarts\<close> panics, and so does a slice bound outside \<^verbatim>\<open>d.buf\<close>.
\<close>

definition seek_npos :: "int \<Rightarrow> int \<Rightarrow> ('s, 'f) Decoder \<Rightarrow> int option" where
  "seek_npos offset whence d =
     (if whence = SeekStart then Some offset
      else if whence = SeekCurrent then Some (wrap64 (pos d + offset))
      else if whence = SeekEnd then Some (wrap64 (Length d + offset))
      else None)"

definition slice_from :: "int \<Rightarrow> ('s, 'f) Decoder \<Rightarrow> ('s, 'f) Decoder option" where
  "slice_from k d =
     (if 0 \<le> k \<and> k \<le> int (length (buf d)) then Some (d\<lparr>buf := drop (nat k) (buf d)\<rparr>)
      else None)"

definition Seek ::
  "('s, 'f, 'h) env \<Rightarrow> int \<Rightarrow> int \<Rightarrow> ('s, 'f) Decoder \<Rightarrow> int outcome \<times> ('s, 'f) Decoder" where
  "Seek E offset whence d =
     (if offset = 0 \<and> whence = SeekCurrent then (Returns (pos d) None, d)
      else
        case seek_npos offset whence d of
          None \<Rightarrow> (Returns 0 (Some (Error ''mp3: invalid whence'')), d)
        | Some npos \<Rightarrow>
            let d1 = d\<lparr>pos := npos, buf := [], frame := None\<rparr> in
            if bytesPerFrame d1 = 0 then (Panics DivideByZero, d1)
            else
              let f = go_div (pos d1) (bytesPerFrame d1) in
              if f > 0 then
                let f' = f - 1 in
                if \<not> f' < int (length (frameStarts d1)) then (Panics IndexOutOfRange, d1)
                else
                  (case source_Seek E (source d1) (frameStarts d1 ! nat f') 0 of
                     (Inl e, s') \<Rightarrow> (Returns 0 (Some e), d1\<lparr>source := s'\<rparr>)
                   | (Inr _, s') \<Rightarrow>
                       (case readFrame E (d1\<lparr>source := s'\<rparr>) of
                          (Returns _ (Some e), d2) \<Rightarrow> (Returns 0 (Some e), d2)
                        | (Panics p, d2) \<Rightarrow> (Panics p, d2)
                        | (Blocks, d2) \<Rightarrow> (Blocks, d2)
                        | (Returns _ None, d2) \<Rightarrow>
                            (case readFrame E d2 of
                               (Returns _ (Some e), d3) \<Rightarrow> (Returns 0 (Some e), d3)
                             | (Panics p, d3) \<Rightarrow> (Panics p, d3)
                             | (Blocks, d3) \<Rightarrow> (Blocks, d3)
                             | (Returns _ None, d3) \<Rightarrow>
                                 (case slice_from
                                         (wrap64 (bytesPerFrame d3
                                                  + go_mod (pos d3) (bytesPerFrame d3))) d3 of
                                    None \<Rightarrow> (Panics SliceBoundsOutOfRange, d3)
                                  | Some d4 \<Rightarrow> (Returns npos None, d4)))))
              else
                if \<not> (0 \<le> f \<and> f < int (length (frameStarts d1))) then
                  (Panics IndexOutOfRange, d1)
                else
                  (case source_Seek E (source d1) (frameStarts d1 ! nat f) 0 of
                     (Inl e, s') \<Rightarrow> (Returns 0 (Some e), d1\<lparr>source := s'\<rparr>)
                   | (Inr _, s') \<Rightarrow>
                       (case readFrame E (d1\<lparr>source := s'\<rparr>) of
                          (Returns _ (Some e), d2) \<Rightarrow> (Returns 0 (Some e), d2)
                        | (Panics p, d2) \<Rightarrow> (Panics p, d2)
                        | (Blocks, d2) \<Rightarrow> (Blocks, d2)
                        | (Returns _ None, d2) \<Rightarrow>
                            (case slice_from (pos d2) d2 of
                               None \<Rightarrow> (Panics SliceBoundsOutOfRange, d2)
                             | Some d3 \<Rightarrow> (Returns npos None, d3)))))"

text \<open>
  \<^verbatim>\<open>Read\<close>. The loop \<^verbatim>\<open>for len(d.buf) == 0\<close> need not end (a source may keep yielding
  frames that decode to nothing), so it is a partial function: \<open>None\<close> is a call that
  never returns. \<^verbatim>\<open>d.mux.Lock()\<close> waits while the mutex is held; the deferred
  \<^verbatim>\<open>Unlock\<close> runs on every way out. The caller's buffer \<open>b\<close> is returned as \<^verbatim>\<open>copy\<close>
  leaves it.
\<close>

partial_function (option) fill ::
  "('s, 'f, 'h) env \<Rightarrow> ('s, 'f) Decoder \<Rightarrow> (unit outcome \<times> ('s, 'f) Decoder) option" where
  "fill E d =
     (if length (buf d) = 0 then
        (case readFrame E d of
           (Returns _ None, d') \<Rightarrow> fill E d'
         | (Returns _ (Some e), d') \<Rightarrow> Some (Returns () (Some e), d')
         | (Panics p, d') \<Rightarrow> Some (Panics p, d')
         | (Blocks, d') \<Rightarrow> Some (Blocks, d'))
      else Some (Returns () None, d))"

definition Read ::
  "('s, 'f, 'h) env \<Rightarrow> byte list \<Rightarrow> ('s, 'f) Decoder
     \<Rightarrow> ((int outcome \<times> byte list) \<times> ('s, 'f) Decoder) option" where
  "Read E b d =
     (if mux d then Some ((Blocks, b), d)
      else
        (case fill E (d\<lparr>mux := True\<rparr>) of
           None \<Rightarrow> None
         | Some (Returns _ None, d1) \<Rightarrow>
             let n = min (length b) (length (buf d1)) in
             Some ((Returns (int n) None, take n (buf d1) @ drop n b),
                   d1\<lparr>buf := drop n (buf d1), pos := wrap64 (pos d1 + int n), mux := False\<rparr>)
         | Some (Returns _ (Some e), d1) \<Rightarrow> Some ((Returns 0 (Some e), b), d1\<lparr>mux := False\<rparr>)
         | Some (Panics p, d1) \<Rightarrow> Some ((Panics p, b), d1\<lparr>mux := False\<rparr>)
         | Some (Blocks, d1) \<Rightarrow> Some ((Blocks, b), d1\<lparr>mux := False\<rparr>)))"

text \<open>
  \<^verbatim>\<open>SeekPercent\<close>. The two range checks on \<^verbatim>\<open>where\<close> come before the lock; a NaN passes
  both. \<open>target_frame\<close> is \<^verbatim>\<open>int64(float64(len(d.frameStarts))*where)\<close>: the length is
  converted to \<^verbatim>\<open>float64\<close>, the product is rounded to \<^verbatim>\<open>float64\<close>, and the conversion to
  \<^verbatim>\<open>int64\<close> truncates towards zero. The subtraction of \<^verbatim>\<open>int64(offset)\<close> is an \<^verbatim>\<open>int64\<close>
  one. \<open>lookback\<close> is the loop \<^verbatim>\<open>for frameIndex < 0\<close>, \<open>preread\<close> the loop
  \<^verbatim>\<open>for i := 0; i < offset; i++\<close>.
\<close>

definition int64_of_f64 :: "('s, 'f, 'h) env \<Rightarrow> f64 \<Rightarrow> int" where
  "int64_of_f64 E v =
     (case v of
        Finite x \<Rightarrow>
          if in_int64 (if 0 \<le> x then \<lfloor>x\<rfloor> else \<lceil>x\<rceil>) then (if 0 \<le> x then \<lfloor>x\<rfloor> else \<lceil>x\<rceil>)
          else wrap64 (int64_unrepresentable E v)
      | _ \<Rightarrow> wrap64 (int64_unrepresentable E v))"

definition target_frame :: "('s, 'f, 'h) env \<Rightarrow> nat \<Rightarrow> f64 \<Rightarrow> int" where
  "target_frame E n w = int64_of_f64 E (f64_mul (f64_of_int (int n)) w)"

function lookback :: "int \<Rightarrow> int \<Rightarrow> int \<times> int" where
  "lookback frameIndex offset =
     (if frameIndex < 0 then lookback (frameIndex + 1) (offset - 1) else (frameIndex, offset))"
  by pat_completeness auto
termination
  by (relation "measure (\<lambda>(frameIndex, offset). nat (- frameIndex))") auto

function preread ::
  "('s, 'f, 'h) env \<Rightarrow> int \<Rightarrow> int \<Rightarrow> int \<Rightarrow> ('s, 'f) Decoder
     \<Rightarrow> unit outcome \<times> ('s, 'f) Decoder" where
  "preread E i offset frameIndex d =
     (if i < offset then
        (if frameIndex \<ge> 0 then
           (case readFrame E (d\<lparr>buf := []\<rparr>) of
              (Returns _ None, d') \<Rightarrow> preread E (i + 1) offset (frameIndex + 1) d'
            | (Returns _ (Some e), d') \<Rightarrow> (Returns () (Some e), d')
            | (Panics p, d') \<Rightarrow> (Panics p, d')
            | (Blocks, d') \<Rightarrow> (Blocks, d'))
         else preread E (i + 1) offset (frameIndex + 1) d)
      else (Returns () None, d))"
  by pat_completeness auto
termination
  by (relation "measure (\<lambda>(E, i, offset, frameIndex, d). nat (offset - i))") auto

definition SeekPercent ::
  "('s, 'f, 'h) env \<Rightarrow> f64 \<Rightarrow> ('s, 'f) Decoder \<Rightarrow> int outcome \<times> ('s, 'f) Decoder" where
  "SeekPercent E w d =
     (if f64_less w (Finite 0) then
        (Returns 0 (Some (Error ''mp3: cannot seek to negative position'')), d)
      else if f64_less (Finite 1) w then
        (Returns 0 (Some (Error ''mp3: cannot seek beyond stream end'')), d)
      else if mux d then (Blocks, d)
      else
        (case lookback (wrap64 (target_frame E (length (frameStarts d)) w - 4)) 4 of
           (frameIndex, offset) \<Rightarrow>
             let d1 = d\<lparr>mux := True, frame := None\<rparr>;
                 d2 = d1\<lparr>pos := wrap64 (bytesPerFrame d1 * frameIndex)\<rparr>
             in
               if \<not> (0 \<le> frameIndex \<and> frameIndex < int (length (frameStarts d2))) then
                 (Panics IndexOutOfRange, d2\<lparr>mux := False\<rparr>)
               else
                 (case source_Seek E (source d2) (frameStarts d2 ! nat frameIndex) SeekStart of
                    (Inl e, s') \<Rightarrow> (Returns 0 (Some e), d2\<lparr>source := s', mux := False\<rparr>)
                  | (Inr _, s') \<Rightarrow>
                      (case preread E 0 offset frameIndex (d2\<lparr>source := s'\<rparr>) of
                         (Returns _ None, d3) \<Rightarrow> (Returns (pos d3) None, d3\<lparr>mux := False\<rparr>)
                       | (Returns _ (Some e), d3) \<Rightarrow> (Returns 0 (Some e), d3\<lparr>mux := False\<rparr>)
                       | (Panics p, d3) \<Rightarrow> (Panics p, d3\<lparr>mux := False\<rparr>)
                       | (Blocks, d3) \<Rightarrow> (Blocks, d3\<lparr>mux := False\<rparr>)))))"

text \<open>
  \<^verbatim>\<open>ensureFrameStartsAndLength\<close>. \<open>scanFrames\<close> is its \<^verbatim>\<open>for\<close> loop, again partial:
  \<open>Returns l None\<close> is a \<^verbatim>\<open>break\<close> with the running total \<open>l\<close>, \<open>Returns l (Some e)\<close> is
  \<^verbatim>\<open>return err\<close>. \<^verbatim>\<open>make([]byte, framesize-4)\<close> panics on a negative length.
\<close>

partial_function (option) scanFrames ::
  "('s, 'f, 'h) env \<Rightarrow> int \<Rightarrow> ('s, 'f) Decoder \<Rightarrow> (int outcome \<times> ('s, 'f) Decoder) option" where
  "scanFrames E l d =
     (case frameheader_Read E (source d) of
        (Inl e, s') \<Rightarrow>
          if e = EOF then Some (Returns l None, d\<lparr>source := s'\<rparr>)
          else if e = UnexpectedEOF then Some (Returns l None, d\<lparr>source := s'\<rparr>)
          else Some (Returns l (Some e), d\<lparr>source := s'\<rparr>)
      | (Inr (h, p), s') \<Rightarrow>
          let d1 = d\<lparr>source := s', frameStarts := frameStarts d @ [p],
                     bytesPerFrame := h_BytesPerFrame E h\<rparr>;
              l' = wrap64 (l + bytesPerFrame d1)
          in
            (case h_FrameSize E h of
               (_, Some e) \<Rightarrow> Some (Returns l' (Some e), d1)
             | (framesize, None) \<Rightarrow>
                 if framesize - 4 < 0 then Some (Panics MakeSliceLenOutOfRange, d1)
                 else
                   (case source_ReadFull E (source d1) (nat (framesize - 4)) of
                      (Some e, s'') \<Rightarrow>
                        if e = EOF then Some (Returns l' None, d1\<lparr>source := s''\<rparr>)
                        else Some (Returns l' (Some e), d1\<lparr>source := s''\<rparr>)
                    | (None, s'') \<Rightarrow> scanFrames E l' (d1\<lparr>source := s''\<rparr>))))"

definition ensureFrameStartsAndLength ::
  "('s, 'f, 'h) env \<Rightarrow> ('s, 'f) Decoder \<Rightarrow> (unit outcome \<times> ('s, 'f) Decoder) option" where
  "ensureFrameStartsAndLength E d =
     (if length_d d \<noteq> invalidLength then Some (Returns () None, d)
      else if \<not> source_isSeeker E (source d) then Some (Returns () None, d)
      else
        (case source_Seek E (source d) 0 SeekCurrent of
           (Inl e, s1) \<Rightarrow> Some (Returns () (Some e), d\<lparr>source := s1\<rparr>)
         | (Inr p, s1) \<Rightarrow>
             (case source_rewind E s1 of
                (Some e, s2) \<Rightarrow> Some (Returns () (Some e), d\<lparr>source := s2\<rparr>)
              | (None, s2) \<Rightarrow>
                  (case source_skipTags E s2 of
                     (Some e, s3) \<Rightarrow> Some (Returns () (Some e), d\<lparr>source := s3\<rparr>)
                   | (None, s3) \<Rightarrow>
                       (case scanFrames E 0 (d\<lparr>source := s3\<rparr>) of
                          None \<Rightarrow> None
                        | Some (Returns _ (Some e), d1) \<Rightarrow> Some (Returns () (Some e), d1)
                        | Some (Panics q, d1) \<Rightarrow> Some (Panics q, d1)
                        | Some (Blocks, d1) \<Rightarrow> Some (Blocks, d1)
                        | Some (Returns l None, d1) \<Rightarrow>
                            let d2 = d1\<lparr>length_d := l\<rparr> in
                            (case source_Seek E (source d2) p SeekStart of
                               (Inl e, s4) \<Rightarrow> Some (Returns () (Some e), d2\<lparr>source := s4\<rparr>)
                             | (Inr _, s4) \<Rightarrow> Some (Returns () None, d2\<lparr>source := s4\<rparr>)))))))"

text \<open>
  \<^verbatim>\<open>NewDecoder\<close>, from the source state \<open>s\<close> that wraps the reader. The composite literal
  sets \<^verbatim>\<open>source\<close> and \<^verbatim>\<open>length\<close>; every other field has its zero value, \<^verbatim>\<open>volume\<close>
  included. On an error the result is \<^verbatim>\<open>(nil, err)\<close>.
\<close>

definition new_Decoder :: "'s \<Rightarrow> ('s, 'f) Decoder" where
  "new_Decoder s =
     \<lparr>source = s, sampleRate = 0, length_d = invalidLength, frameStarts = [], buf = [],
      frame = None, pos = 0, bytesPerFrame = 0, mux = False, volume = 0\<rparr>"

definition NewDecoder ::
  "('s, 'f, 'h) env \<Rightarrow> 's \<Rightarrow> ('s, 'f) Decoder option outcome option" where
  "NewDecoder E s =
     (case source_skipTags E s of
        (Some e, s1) \<Rightarrow> Some (Returns None (Some e))
      | (None, s1) \<Rightarrow>
          (case readFrame E (new_Decoder s1) of
             (Returns _ (Some e), d1) \<Rightarrow> Some (Returns None (Some e))
           | (Panics q, d1) \<Rightarrow> Some (Panics q)
           | (Blocks, d1) \<Rightarrow> Some Blocks
           | (Returns _ None, d1) \<Rightarrow>
               (case frame d1 of
                  None \<Rightarrow> Some (Panics NilDereference)
                | Some fr \<Rightarrow>
                    (case frame_SamplingFrequency E fr of
                       (_, Some e) \<Rightarrow> Some (Returns None (Some e))
                     | (freq, None) \<Rightarrow>
                         (case ensureFrameStartsAndLength E (d1\<lparr>sampleRate := freq\<rparr>) of
                            None \<Rightarrow> None
                          | Some (Returns _ (Some e), d2) \<Rightarrow> Some (Returns None (Some e))
                          | Some (Panics q, d2) \<Rightarrow> Some (Panics q)
                          | Some (Blocks, d2) \<Rightarrow> Some Blocks
                          | Some (Returns _ None, d2) \<Rightarrow>
                              Some (Returns (Some (d2\<lparr>volume := 1\<rparr>)) None))))))"

text \<open>
  A decoder whose frame index is built: \<^verbatim>\<open>frameStarts\<close> is not empty, each frame decodes
  to \<^verbatim>\<open>bytesPerFrame\<close> bytes, and \<^verbatim>\<open>length\<close> is their total, an \<^verbatim>\<open>int64\<close>.
\<close>

definition index_built :: "('s, 'f) Decoder \<Rightarrow> bool" where
  "index_built d \<longleftrightarrow>
     frameStarts d \<noteq> [] \<and> 0 < bytesPerFrame d \<and>
     length_d d = bytesPerFrame d * int (length (frameStarts d)) \<and> in_int64 (length_d d)"

section \<open>A concrete stream\<close>

text \<open>
  An instance of the collaborators on which the model can be run: a stream of ten frames of
  8 source bytes each, without tags, read from a \<open>tape\<close> that knows its \<open>cursor\<close> and
  whether its reader is an \<^verbatim>\<open>io.Seeker\<close>. Frame \<open>k\<close> decodes to the four bytes
  \<open>10k, 10k+1, 10k+2, 10k+3\<close>, and to silence at volume 0. A \<^verbatim>\<open>float64\<close> that \<^verbatim>\<open>int64\<close>
  cannot represent converts to the least \<^verbatim>\<open>int64\<close>, as on amd64.
\<close>

record tape =
  can_seek :: bool
  cursor :: int

definition tape_frame_Read ::
  "tape \<Rightarrow> int option \<Rightarrow> (int option \<times> go_error option) \<times> tape" where
  "tape_frame_Read s prev =
     (if 0 \<le> cursor s \<and> cursor s < 80 \<and> cursor s mod 8 = 0
      then ((Some (cursor s div 8), None), s\<lparr>cursor := cursor s + 8\<rparr>)
      else ((None, Some EOF), s))"

definition tape_Decode :: "int \<Rightarrow> real \<Rightarrow> byte list" where
  "tape_Decode f v =
     (if v = 0 then [0, 0, 0, 0]
      else [word_of_int (10 * f), word_of_int (10 * f + 1), word_of_int (10 * f + 2),
            word_of_int (10 * f + 3)])"

definition tape_Seek :: "tape \<Rightarrow> int \<Rightarrow> int \<Rightarrow> (go_error + int) \<times> tape" where
  "tape_Seek s off whence =
     (if whence = SeekStart then (Inr off, s\<lparr>cursor := off\<rparr>)
      else if whence = SeekCurrent then (Inr (cursor s + off), s\<lparr>cursor := cursor s + off\<rparr>)
      else (Inr (80 + off), s\<lparr>cursor := 80 + off\<rparr>))"

definition tape_ReadFull :: "tape \<Rightarrow> nat \<Rightarrow> go_error option \<times> tape" where
  "tape_ReadFull s n =
     (if cursor s + int n \<le> 80 then (None, s\<lparr>cursor := cursor s + int n\<rparr>)
      else (Some EOF, s\<lparr>cursor := 80\<rparr>))"

definition tape_header_Read :: "tape \<Rightarrow> (go_error + (int \<times> int)) \<times> tape" where
  "tape_header_Read s =
     (if cursor s + 4 \<le> 80 then (Inr (cursor s div 8, cursor s), s\<lparr>cursor := cursor s + 4\<rparr>)
      else (Inl EOF, s))"

definition tape_env :: "(tape, int, int) env" where
  "tape_env =
     \<lparr>frame_Read = tape_frame_Read, frame_Decode = tape_Decode,
      frame_SamplingFrequency = (\<lambda>f. (44100, None)),
      source_Seek = tape_Seek,
      source_rewind = (\<lambda>s. (None, s\<lparr>cursor := 0\<rparr>)),
      source_skipTags = (\<lambda>s. (None, s)),
      source_ReadFull = tape_ReadFull,
      source_isSeeker = can_seek,
      frameheader_Read = tape_header_Read,
      h_BytesPerFrame = (\<lambda>h. 4),
      h_FrameSize = (\<lambda>h. (8, None)),
      int64_unrepresentable = (\<lambda>v. - (2 ^ 63))\<rparr>"

text \<open>
  A tape whose reader cannot seek: the same stream behind a reader that is no
  \<^verbatim>\<open>io.Seeker\<close>.
\<close>

definition pipe_env :: "(tape, int, int) env" where
  "pipe_env = tape_env\<lparr>source_isSeeker := (\<lambda>s. False)\<rparr>"

text \<open>The decoders that \<^verbatim>\<open>NewDecoder\<close> returns on the two streams.\<close>

definition tape_decoder :: "(tape, int) Decoder" where
  "tape_decoder =
     \<lparr>source = \<lparr>can_seek = True, cursor = 8\<rparr>, sampleRate = 44100, length_d = 40,
      frameStarts = [0, 8, 16, 24, 32, 40, 48, 56, 64, 72], buf = [0, 0, 0, 0],
      frame = Some 0, pos = 0, bytesPerFrame = 4, mux = False, volume = 1\<rparr>"

definition pipe_decoder :: "(tape, int) Decoder" where
  "pipe_decoder =
     \<lparr>source = \<lparr>can_seek = False, cursor = 8\<rparr>, sampleRate = 44100, length_d = - 1,
      frameStarts = [], buf = [0, 0, 0, 0],
      frame = Some 0, pos = 0, bytesPerFrame = 0, mux = False, volume = 1\<rparr>"

text \<open>
  A shorter stream of the same kind, three frames long, and the decoder that
  \<^verbatim>\<open>NewDecoder\<close> returns on it.
\<close>

definition reel_frame_Read ::
  "tape \<Rightarrow> int option \<Rightarrow> (int option \<times> go_error option) \<times> tape" where
  "reel_frame_Read s prev =
     (if 0 \<le> cursor s \<and> cursor s < 24 \<and> cursor s mod 8 = 0
      then ((Some (cursor s div 8), None), s\<lparr>cursor := cursor s + 8\<rparr>)
      else ((None, Some EOF), s))"

definition reel_ReadFull :: "tape \<Rightarrow> nat \<Rightarrow> go_error option \<times> tape" where
  "reel_ReadFull s n =
     (if cursor s + int n \<le> 24 then (None, s\<lparr>cursor := cursor s + int n\<rparr>)
      else (Some EOF, s\<lparr>cursor := 24\<rparr>))"

definition reel_header_Read :: "tape \<Rightarrow> (go_error + (int \<times> int)) \<times> tape" where
  "reel_header_Read s =
     (if cursor s + 4 \<le> 24 then (Inr (cursor s div 8, cursor s), s\<lparr>cursor := cursor s + 4\<rparr>)
      else (Inl EOF, s))"

definition reel_env :: "(tape, int, int) env" where
  "reel_env =
     tape_env\<lparr>frame_Read := reel_frame_Read, source_ReadFull := reel_ReadFull,
              frameheader_Read := reel_header_Read\<rparr>"

definition reel_decoder :: "(tape, int) Decoder" where
  "reel_decoder =
     \<lparr>source = \<lparr>can_seek = True, cursor = 8\<rparr>, sampleRate = 44100, length_d = 12,
      frameStarts = [0, 8, 16], buf = [0, 0, 0, 0],
      frame = Some 0, pos = 0, bytesPerFrame = 4, mux = False, volume = 1\<rparr>"

text \<open>
  The \<^verbatim>\<open>float64\<close> values written \<^verbatim>\<open>0.3333333333333333\<close> and \<^verbatim>\<open>0.7\<close>: the nearest
  \<^verbatim>\<open>float64\<close> to one third lies below it, the nearest to seven tenths below that.
\<close>

definition third :: real where
  "third = 6004799503160661 / 2 ^ 54"

definition seven_tenths :: real where
  "seven_tenths = 6305039478318694 / 2 ^ 53"

text \<open>States of the decoder on the tape that the properties below refer to.\<close>

definition tape_at2 :: "(tape, int) Decoder" where
  "tape_at2 =
     \<lparr>source = \<lparr>can_seek = True, cursor = 8\<rparr>, sampleRate = 44100, length_d = 40,
      frameStarts = [0, 8, 16, 24, 32, 40, 48, 56, 64, 72], buf = [2, 3],
      frame = Some 0, pos = 2, bytesPerFrame = 4, mux = False, volume = 1\<rparr>"

definition tape_at5 :: "(tape, int) Decoder" where
  "tape_at5 =
     \<lparr>source = \<lparr>can_seek = True, cursor = 16\<rparr>, sampleRate = 44100, length_d = 40,
      frameStarts = [0, 8, 16, 24, 32, 40, 48, 56, 64, 72], buf = [11, 12, 13],
      frame = Some 1, pos = 5, bytesPerFrame = 4, mux = False, volume = 1\<rparr>"

definition tape_half :: "(tape, int) Decoder" where
  "tape_half =
     \<lparr>source = \<lparr>can_seek = True, cursor = 40\<rparr>, sampleRate = 44100, length_d = 40,
      frameStarts = [0, 8, 16, 24, 32, 40, 48, 56, 64, 72], buf = [40, 41, 42, 43],
      frame = Some 4, pos = 4, bytesPerFrame = 4, mux = False, volume = 1\<rparr>"

definition tape_seven_tenths :: "(tape, int) Decoder" where
  "tape_seven_tenths =
     \<lparr>source = \<lparr>can_seek = True, cursor = 56\<rparr>, sampleRate = 44100, length_d = 40,
      frameStarts = [0, 8, 16, 24, 32, 40, 48, 56, 64, 72], buf = [60, 61, 62, 63],
      frame = Some 6, pos = 12, bytesPerFrame = 4, mux = False, volume = 1\<rparr>"

definition reel_primed :: "(tape, int) Decoder" where
  "reel_primed =
     \<lparr>source = \<lparr>can_seek = True, cursor = 8\<rparr>, sampleRate = 44100, length_d = 12,
      frameStarts = [0, 8, 16], buf = [0, 1, 2, 3],
      frame = Some 0, pos = 0, bytesPerFrame = 4, mux = False, volume = 1\<rparr>"

definition tape_rewound :: "(tape, int) Decoder" where
  "tape_rewound =
     \<lparr>source = \<lparr>can_seek = True, cursor = 0\<rparr>, sampleRate = 44100, length_d = 40,
      frameStarts = [0, 8, 16, 24, 32, 40, 48, 56, 64, 72], buf = [0, 0, 0, 0],
      frame = None, pos = 0, bytesPerFrame = 4, mux = False, volume = 1\<rparr>"

definition tape_at4 :: "(tape, int) Decoder" where
  "tape_at4 =
     \<lparr>source = \<lparr>can_seek = True, cursor = 8\<rparr>, sampleRate = 44100, length_d = 40,
      frameStarts = [0, 8, 16, 24, 32, 40, 48, 56, 64, 72], buf = [],
      frame = Some 0, pos = 4, bytesPerFrame = 4, mux = False, volume = 1\<rparr>"

definition tape_refilled :: "(tape, int) Decoder" where
  "tape_refilled =
     \<lparr>source = \<lparr>can_seek = True, cursor = 16\<rparr>, sampleRate = 44100, length_d = 40,
      frameStarts = [0, 8, 16, 24, 32, 40, 48, 56, 64, 72], buf = [10, 11, 12, 13],
      frame = Some 1, pos = 4, bytesPerFrame = 4, mux = False, volume = 1\<rparr>"

definition tape_end :: "(tape, int) Decoder" where
  "tape_end =
     \<lparr>source = \<lparr>can_seek = True, cursor = 80\<rparr>, sampleRate = 44100, length_d = 40,
      frameStarts = [0, 8, 16, 24, 32, 40, 48, 56, 64, 72], buf = [],
      frame = Some 9, pos = 40, bytesPerFrame = 4, mux = False, volume = 1\<rparr>"

definition tape_held :: "(tape, int) Decoder" where
  "tape_held = tape_decoder\<lparr>mux := True\<rparr>"

section \<open>Facts about the operations\<close>

declare lookback.simps [simp del] preread.simps [simp del]
declare binade_up.simps [simp del] binade_down.simps [simp del]

lemmas f64_eval =
  f64_mul_def f64_of_int_def f64_round_def f64_round_pos_def binade_def binade_up.simps
  binade_down.simps pow2_def round_half_even_def

lemma wrap64_in_int64: "in_int64 (wrap64 x)"
proof -
  have "0 \<le> (x + 2 ^ 63) mod 2 ^ 64" and "(x + 2 ^ 63) mod 2 ^ 64 < 2 ^ 64"
    by simp_all
  then show ?thesis by (simp add: in_int64_def wrap64_def)
qed

lemma target_frame_in_int64: "in_int64 (target_frame E n w)"
  by (simp add: target_frame_def int64_of_f64_def wrap64_in_int64 split: f64.splits)

text \<open>
  Rounding to \<^verbatim>\<open>float64\<close> keeps a value between 0 and a power of two there. Hence, on a
  stream of at most \<open>2^62\<close> frames, \<open>target_frame\<close> of a fraction in \<open>[0, 1]\<close> is
  representable and not negative, and \<open>target_frame\<close> of 0 is 0.
\<close>

lemma pow2_powi: "pow2 e = 2 powi e"
  by (simp add: pow2_def power_int_def inverse_eq_divide power_one_over)

lemma pow2_pos: "0 < pow2 e"
  by (simp add: pow2_powi)

lemma pow2_mono: "a \<le> b \<Longrightarrow> pow2 a \<le> pow2 b"
  by (simp add: pow2_powi power_int_increasing)

lemma pow2_strict_mono: "a < b \<Longrightarrow> pow2 a < pow2 b"
  by (simp add: pow2_powi power_int_strict_increasing)

lemma pow2_less_cancel: "pow2 a < pow2 b \<Longrightarrow> a < b"
proof (rule ccontr)
  assume "pow2 a < pow2 b" and "\<not> a < b"
  then have "pow2 b \<le> pow2 a" by (simp add: pow2_mono)
  with \<open>pow2 a < pow2 b\<close> show False by simp
qed

lemma pow2_add: "pow2 (a + b) = pow2 a * pow2 b"
  by (simp add: pow2_powi power_int_add)

lemma pow2_nat: "0 \<le> e \<Longrightarrow> pow2 e = of_int (2 ^ nat e)"
  by (simp add: pow2_def)

lemma binade_up_le:
  "e \<le> k \<Longrightarrow> x < pow2 (k + 1) \<Longrightarrow> binade_up x e \<le> k"
proof (induction x e rule: binade_up.induct)
  case (1 x e)
  show ?case
  proof (cases "1024 \<le> e \<or> x < pow2 (e + 1)")
    case True
    with "1.prems" show ?thesis by (simp add: binade_up.simps [of x e])
  next
    case False
    then have "pow2 (e + 1) \<le> x" by simp
    with "1.prems"(2) have "pow2 (e + 1) < pow2 (k + 1)" by simp
    then have "e + 1 \<le> k" using pow2_less_cancel by fastforce
    from "1.IH" [OF False this "1.prems"(2)] False show ?thesis
      by (simp add: binade_up.simps [of x e])
  qed
qed

lemma binade_up_ge: "e \<le> binade_up x e"
proof (induction x e rule: binade_up.induct)
  case (1 x e)
  show ?case
  proof (cases "1024 \<le> e \<or> x < pow2 (e + 1)")
    case True
    then show ?thesis by (simp add: binade_up.simps [of x e])
  next
    case False
    from "1.IH" [OF False] False show ?thesis
      by (simp add: binade_up.simps [of x e])
  qed
qed

lemma binade_down_le: "binade_down x e \<le> e"
proof (induction x e rule: binade_down.induct)
  case (1 x e)
  show ?case
  proof (cases "e \<le> - 1022 \<or> pow2 e \<le> x")
    case True
    then show ?thesis by (simp add: binade_down.simps [of x e])
  next
    case False
    from "1.IH" [OF False] False show ?thesis
      by (simp add: binade_down.simps [of x e])
  qed
qed

lemma binade_down_ge: "- 1022 \<le> e \<Longrightarrow> - 1022 \<le> binade_down x e"
proof (induction x e rule: binade_down.induct)
  case (1 x e)
  show ?case
  proof (cases "e \<le> - 1022 \<or> pow2 e \<le> x")
    case True
    with "1.prems" show ?thesis by (simp add: binade_down.simps [of x e])
  next
    case False
    then have "- 1022 \<le> e - 1" by simp
    from "1.IH" [OF False this] False show ?thesis
      by (simp add: binade_down.simps [of x e])
  qed
qed

lemma binade_bounds:
  assumes "x \<le> pow2 k" "0 \<le> k"
  shows "- 1022 \<le> binade x \<and> binade x \<le> k"
proof (cases "1 \<le> x")
  case True
  have "pow2 k < pow2 (k + 1)" by (rule pow2_strict_mono) simp
  with assms(1) have "x < pow2 (k + 1)" by simp
  from binade_up_le [OF assms(2) this] binade_up_ge [of 0 x] True show ?thesis
    by (simp add: binade_def)
next
  case False
  from binade_down_le [of x "- 1"] binade_down_ge [of "- 1" x] assms(2) False show ?thesis
    by (simp add: binade_def)
qed

lemma round_half_even_le:
  assumes "q \<le> of_int K"
  shows "round_half_even q \<le> K"
proof -
  have fl: "\<lfloor>q\<rfloor> \<le> K" using assms by (simp add: floor_le_iff)
  show ?thesis
  proof (cases "\<lfloor>q\<rfloor> = K")
    case True
    then have "of_int K \<le> q" using of_int_floor_le [of q] by simp
    with assms have "q = of_int K" by simp
    then show ?thesis by (simp add: round_half_even_def)
  next
    case False
    with fl have "\<lfloor>q\<rfloor> + 1 \<le> K" by simp
    then show ?thesis by (auto simp: round_half_even_def)
  qed
qed

lemma round_half_even_nonneg: "0 \<le> q \<Longrightarrow> 0 \<le> round_half_even q"
  by (auto simp: round_half_even_def)

lemma f64_round_pos_bounded:
  assumes y: "0 < y" "y \<le> pow2 k" and k: "0 \<le> k" "k < 1024"
  shows "\<exists>z. f64_round_pos y = Finite z \<and> 0 \<le> z \<and> z \<le> pow2 k"
proof -
  let ?e = "binade y"
  let ?u = "pow2 (?e - 52)"
  let ?m = "round_half_even (y / ?u)"
  from binade_bounds [OF y(2) k(1)] have e: "- 1022 \<le> ?e" "?e \<le> k" by simp_all
  have u: "0 < ?u" by (rule pow2_pos)
  have d: "0 \<le> k - ?e + 52" using e by simp
  have "pow2 k = pow2 (k - ?e + 52) * ?u"
    using pow2_add [of "k - ?e + 52" "?e - 52"] by simp
  also have "pow2 (k - ?e + 52) = of_int (2 ^ nat (k - ?e + 52))"
    using d by (rule pow2_nat)
  finally have pk: "pow2 k = of_int (2 ^ nat (k - ?e + 52)) * ?u" .
  have "y / ?u \<le> of_int (2 ^ nat (k - ?e + 52))"
    using y(2) u by (simp add: pk pos_divide_le_eq)
  then have m: "?m \<le> 2 ^ nat (k - ?e + 52)" by (rule round_half_even_le)
  have m0: "0 \<le> ?m" using y(1) u by (intro round_half_even_nonneg) simp
  have "of_int ?m * ?u \<le> of_int (2 ^ nat (k - ?e + 52)) * ?u"
    using m u by (intro mult_right_mono) (simp_all add: of_int_le_iff [symmetric] del: of_int_le_iff)
  then have z: "of_int ?m * ?u \<le> pow2 k" by (simp add: pk)
  have "pow2 k < pow2 1024" using k(2) by (rule pow2_strict_mono)
  with z have fin: "\<not> pow2 1024 \<le> of_int ?m * ?u" by simp
  have z0: "0 \<le> of_int ?m * ?u" using m0 u by simp
  from e k have "\<not> 1024 \<le> ?e" by simp
  with fin z z0 show ?thesis by (simp add: f64_round_pos_def)
qed

lemma f64_round_bounded:
  assumes "0 \<le> y" "y \<le> pow2 k" "0 \<le> k" "k < 1024"
  shows "\<exists>z. f64_round y = Finite z \<and> 0 \<le> z \<and> z \<le> pow2 k"
proof (cases "y = 0")
  case True
  then show ?thesis using pow2_pos [of k] by (simp add: f64_round_def)
next
  case False
  with assms(1) have "0 < y" by simp
  from f64_round_pos_bounded [OF this assms(2,3,4)] \<open>0 < y\<close> show ?thesis
    by (simp add: f64_round_def)
qed

lemma target_frame_fraction:
  assumes n: "n \<le> 2 ^ 62" and x: "0 \<le> x" "x \<le> 1"
  shows "0 \<le> target_frame E n (Finite x) \<and> target_frame E n (Finite x) \<le> 2 ^ 62"
proof -
  have p: "pow2 62 = 2 ^ 62" by (simp add: pow2_def)
  have "real_of_int (int n) \<le> pow2 62" using n by (simp add: p)
  from f64_round_bounded [OF _ this] obtain v where
    v: "f64_of_int (int n) = Finite v" "0 \<le> v" "v \<le> pow2 62"
    by (auto simp: f64_of_int_def)
  have "v * x \<le> pow2 62" using v(2,3) x mult_mono [of v "pow2 62" x 1] by simp
  moreover have "0 \<le> v * x" using v(2) x(1) by simp
  ultimately obtain z where z: "f64_round (v * x) = Finite z" "0 \<le> z" "z \<le> pow2 62"
    using f64_round_bounded [of "v * x" 62] by auto
  have "\<lfloor>z\<rfloor> \<le> 2 ^ 62" using z(3) by (simp add: p floor_le_iff)
  moreover have "0 \<le> \<lfloor>z\<rfloor>" using z(2) by simp
  ultimately show ?thesis
    using z(1,2) by (simp add: target_frame_def f64_mul_def v(1) int64_of_f64_def in_int64_def)
qed

lemma target_frame_zero:
  assumes "n \<le> 2 ^ 62"
  shows "target_frame E n (Finite 0) = 0"
proof -
  have p: "pow2 62 = 2 ^ 62" by (simp add: pow2_def)
  have "real_of_int (int n) \<le> pow2 62" using assms by (simp add: p)
  from f64_round_bounded [OF _ this] obtain v where
    v: "f64_of_int (int n) = Finite v"
    by (auto simp: f64_of_int_def)
  show ?thesis
    by (simp add: target_frame_def f64_mul_def v f64_round_def int64_of_f64_def in_int64_def)
qed

lemma wrap64_id: "in_int64 x \<Longrightarrow> wrap64 x = x"
  by (simp add: in_int64_def wrap64_def)

lemma go_div_nonneg:
  assumes "0 \<le> a" "0 < b" "in_int64 a"
  shows "go_div a b = a div b"
proof -
  have "0 \<le> a div b" using assms by (simp add: pos_imp_zdiv_nonneg_iff)
  moreover have "a div b \<le> a"
  proof (cases "a = 0")
    case True then show ?thesis by simp
  next
    case False with assms show ?thesis by (simp add: int_div_le_self)
  qed
  ultimately have "in_int64 (a div b)" using assms by (simp add: in_int64_def)
  moreover have "sgn a * sgn b * (\<bar>a\<bar> div \<bar>b\<bar>) = a div b"
    using assms by (cases "a = 0") (simp_all add: sgn_if)
  ultimately show ?thesis by (simp add: go_div_def wrap64_id)
qed

lemma go_mod_nonneg: "0 \<le> a \<Longrightarrow> 0 < b \<Longrightarrow> go_mod a b = a mod b"
  by (cases "a = 0") (simp_all add: go_mod_def sgn_if)

lemma readFrame_ok:
  assumes "readFrame E d = (Returns u None, d')"
  shows "\<exists>fr s'. frame_Read E (source d) (frame d) = ((Some fr, None), s') \<and>
           d' = d\<lparr>source := s', frame := Some fr, buf := buf d @ frame_Decode E fr (volume d)\<rparr>"
  using assms
  by (auto simp: readFrame_def Let_def split: prod.splits option.splits if_splits)

lemma readFrame_keeps:
  assumes "readFrame E d = (r, d')"
  shows "pos d' = pos d \<and> mux d' = mux d \<and> volume d' = volume d \<and> bytesPerFrame d' = bytesPerFrame d
         \<and> frameStarts d' = frameStarts d \<and> length_d d' = length_d d \<and> sampleRate d' = sampleRate d"
  using assms
  by (auto simp: readFrame_def Let_def split: prod.splits option.splits if_splits)

lemma slice_from_Some:
  "slice_from k d = Some d' \<Longrightarrow> 0 \<le> k \<and> k \<le> int (length (buf d)) \<and> d' = d\<lparr>buf := drop (nat k) (buf d)\<rparr>"
  by (auto simp: slice_from_def split: if_splits)

lemma Seek_ok_cases:
  assumes ok: "Seek E offset whence d = (Returns r None, d')"
    and nq: "\<not> (offset = 0 \<and> whence = SeekCurrent)"
  shows "\<exists>d1. seek_npos offset whence d = Some r \<and> bytesPerFrame d \<noteq> 0 \<and>
           d1 = d\<lparr>pos := r, buf := [], frame := None\<rparr> \<and>
           (if go_div r (bytesPerFrame d) > 0 then
              go_div r (bytesPerFrame d) - 1 < int (length (frameStarts d)) \<and>
              (\<exists>x s1 d2 d3. source_Seek E (source d) (frameStarts d ! nat (go_div r (bytesPerFrame d) - 1)) 0 = (Inr x, s1) \<and>
                 readFrame E (d1\<lparr>source := s1\<rparr>) = (Returns () None, d2) \<and>
                 readFrame E d2 = (Returns () None, d3) \<and>
                 slice_from (wrap64 (bytesPerFrame d3 + go_mod (pos d3) (bytesPerFrame d3))) d3 = Some d')
            else
              0 \<le> go_div r (bytesPerFrame d) \<and> go_div r (bytesPerFrame d) < int (length (frameStarts d)) \<and>
              (\<exists>x s1 d2. source_Seek E (source d) (frameStarts d ! nat (go_div r (bytesPerFrame d))) 0 = (Inr x, s1) \<and>
                 readFrame E (d1\<lparr>source := s1\<rparr>) = (Returns () None, d2) \<and>
                 slice_from (pos d2) d2 = Some d'))"
  using ok nq
  by (auto simp: Seek_def Let_def split: option.splits if_splits prod.splits sum.splits outcome.splits)

lemma Seek_ok_pos:
  assumes "Seek E offset whence d = (Returns r None, d')"
  shows "pos d' = (if offset = 0 \<and> whence = SeekCurrent then pos d else r)"
proof (cases "offset = 0 \<and> whence = SeekCurrent")
  case True
  with assms show ?thesis by (simp add: Seek_def)
next
  case False
  from Seek_ok_cases [OF assms False] show ?thesis
    using False
    by (auto split: if_splits dest!: slice_from_Some readFrame_keeps)
qed

lemma lookback_eq:
  "lookback frameIndex offset =
     (if frameIndex < 0 then (0, offset + frameIndex) else (frameIndex, offset))"
proof (induction frameIndex offset rule: lookback.induct)
  case (1 frameIndex offset)
  show ?case
  proof (cases "frameIndex < 0")
    case True
    with 1 show ?thesis by (subst lookback.simps) auto
  next
    case False
    then show ?thesis by (subst lookback.simps) simp
  qed
qed

lemma preread_keeps:
  "preread E i offset frameIndex d = (r, d') \<Longrightarrow>
     pos d' = pos d \<and> mux d' = mux d \<and> bytesPerFrame d' = bytesPerFrame d \<and>
     frameStarts d' = frameStarts d"
proof (induction E i offset frameIndex d rule: preread.induct)
  case (1 E i offset frameIndex d)
  show ?case
  proof (cases "i < offset")
    case False
    with "1.prems" show ?thesis by (simp add: preread.simps [of E i])
  next
    case lt: True
    show ?thesis
    proof (cases "0 \<le> frameIndex")
      case False
      with lt "1.prems" have "preread E (i + 1) offset (frameIndex + 1) d = (r, d')"
        by (simp add: preread.simps [of E i])
      with "1.IH"(2) lt False show ?thesis by simp
    next
      case ge: True
      obtain q d1 where rf: "readFrame E (d\<lparr>buf := []\<rparr>) = (q, d1)"
        by (cases "readFrame E (d\<lparr>buf := []\<rparr>)")
      from readFrame_keeps [OF rf] have k: "pos d1 = pos d \<and> mux d1 = mux d \<and>
          bytesPerFrame d1 = bytesPerFrame d \<and> frameStarts d1 = frameStarts d" by simp
      show ?thesis
      proof (cases "\<exists>u. q = Returns u None")
        case True
        then obtain u where q: "q = Returns u None" by blast
        with lt ge rf "1.prems" have "preread E (i + 1) offset (frameIndex + 1) d1 = (r, d')"
          by (simp add: preread.simps [of E i])
        from "1.IH"(1) [OF lt ge rf [symmetric] q refl this] k show ?thesis by simp
      next
        case False
        with lt ge rf "1.prems" have "d' = d1"
          by (auto simp: preread.simps [of E i] split: outcome.splits option.splits)
        with k show ?thesis by simp
      qed
    qed
  qed
qed

lemma preread_none: "\<not> i < offset \<Longrightarrow> preread E i offset frameIndex d = (Returns () None, d)"
  by (simp add: preread.simps [of E i])

lemma SeekPercent_ok_cases:
  assumes ok: "SeekPercent E w d = (Returns r None, d')"
  shows "\<not> f64_less w (Finite 0) \<and> \<not> f64_less (Finite 1) w \<and> \<not> mux d \<and>
         (\<exists>frameIndex offset x s1 d3.
            lookback (wrap64 (target_frame E (length (frameStarts d)) w - 4)) 4
              = (frameIndex, offset) \<and>
            0 \<le> frameIndex \<and> frameIndex < int (length (frameStarts d)) \<and>
            source_Seek E (source d) (frameStarts d ! nat frameIndex) SeekStart = (Inr x, s1) \<and>
            preread E 0 offset frameIndex
              (d\<lparr>mux := True, frame := None, pos := wrap64 (bytesPerFrame d * frameIndex),
                 source := s1\<rparr>) = (Returns () None, d3) \<and>
            r = pos d3 \<and> d' = d3\<lparr>mux := False\<rparr>)"
  using ok
  by (auto simp: SeekPercent_def Let_def split: if_splits prod.splits sum.splits outcome.splits option.splits)

lemma scanFrames_keeps:
  "scanFrames E l d = Some res \<Longrightarrow>
     buf (snd res) = buf d \<and> volume (snd res) = volume d \<and> mux (snd res) = mux d \<and>
     frame (snd res) = frame d \<and> pos (snd res) = pos d \<and> sampleRate (snd res) = sampleRate d"
proof (induction rule: scanFrames.raw_induct [rotated 1, consumes 1])
  case (1 scan E l d res)
  note IH = "1.IH" and body = "1.hyps"
  show ?case
    using body
    by (auto simp: Let_def split: prod.splits sum.splits if_splits option.splits dest!: IH)
qed

lemma ensure_keeps:
  assumes "ensureFrameStartsAndLength E d = Some (r, d')"
  shows "buf d' = buf d \<and> volume d' = volume d \<and> mux d' = mux d \<and> frame d' = frame d \<and>
         pos d' = pos d \<and> sampleRate d' = sampleRate d"
  using assms
  by (auto simp: ensureFrameStartsAndLength_def Let_def
           split: prod.splits sum.splits if_splits option.splits outcome.splits
           dest!: scanFrames_keeps)

lemma ensure_unseekable:
  assumes "\<not> source_isSeeker E (source d)"
  shows "ensureFrameStartsAndLength E d = Some (Returns () None, d)"
  using assms by (simp add: ensureFrameStartsAndLength_def)

lemma NewDecoder_ok_cases:
  assumes "NewDecoder E s = Some (Returns (Some d) None)"
  shows "\<exists>s1 fr s2 freq d2.
           source_skipTags E s = (None, s1) \<and>
           frame_Read E s1 None = ((Some fr, None), s2) \<and>
           frame_SamplingFrequency E fr = (freq, None) \<and>
           ensureFrameStartsAndLength E
             ((new_Decoder s1)\<lparr>source := s2, frame := Some fr, buf := frame_Decode E fr 0,
                 sampleRate := freq\<rparr>) = Some (Returns () None, d2) \<and>
           d = d2\<lparr>volume := 1\<rparr>"
proof -
  from assms obtain s1 where sk: "source_skipTags E s = (None, s1)"
    by (auto simp: NewDecoder_def split: prod.splits option.splits)
  from assms sk obtain u d1 where rf: "readFrame E (new_Decoder s1) = (Returns u None, d1)"
    by (auto simp: NewDecoder_def split: prod.splits option.splits outcome.splits)
  from readFrame_ok [OF rf] obtain fr s2 where
    fr: "frame_Read E s1 None = ((Some fr, None), s2)"
    and d1: "d1 = (new_Decoder s1)\<lparr>source := s2, frame := Some fr, buf := frame_Decode E fr 0\<rparr>"
    by (auto simp: new_Decoder_def)
  from assms sk rf d1 obtain freq where sf: "frame_SamplingFrequency E fr = (freq, None)"
    by (auto simp: NewDecoder_def split: prod.splits option.splits outcome.splits)
  from assms sk rf d1 sf obtain d2 where
    "ensureFrameStartsAndLength E (d1\<lparr>sampleRate := freq\<rparr>) = Some (Returns () None, d2)"
    and "d = d2\<lparr>volume := 1\<rparr>"
    by (auto simp: NewDecoder_def split: prod.splits option.splits outcome.splits)
  with sk fr sf d1 show ?thesis by auto
qed

lemma NewDecoder_unseekable:
  assumes ns: "\<And>s. \<not> source_isSeeker E s"
    and nd: "NewDecoder E s0 = Some (Returns (Some d) None)"
  shows "frameStarts d = [] \<and> bytesPerFrame d = 0 \<and> length_d d = invalidLength \<and> \<not> mux d"
proof -
  from NewDecoder_ok_cases [OF nd] obtain s1 fr s2 freq d2 where
    e: "ensureFrameStartsAndLength E
             ((new_Decoder s1)\<lparr>source := s2, frame := Some fr, buf := frame_Decode E fr 0,
                 sampleRate := freq\<rparr>) = Some (Returns () None, d2)"
    and d: "d = d2\<lparr>volume := 1\<rparr>"
    by blast
  from e ns have "d2 = (new_Decoder s1)\<lparr>source := s2, frame := Some fr, buf := frame_Decode E fr 0,
                 sampleRate := freq\<rparr>"
    by (simp add: ensure_unseekable)
  with d show ?thesis by (simp add: new_Decoder_def)
qed

lemma fill_keeps:
  "fill E d = Some res \<Longrightarrow>
     pos (snd res) = pos d \<and> mux (snd res) = mux d \<and>
     (\<forall>u. fst res = Returns u None \<longrightarrow> buf (snd res) \<noteq> [])"
proof (induction rule: fill.raw_induct [rotated 1, consumes 1])
  case (1 fill' E d res)
  note IH = "1.IH" and body = "1.hyps"
  show ?case
  proof (cases "buf d = []")
    case False
    with body show ?thesis by auto
  next
    case True
    obtain q d1 where rf: "readFrame E d = (q, d1)" by (cases "readFrame E d")
    from readFrame_keeps [OF rf] have k: "pos d1 = pos d" "mux d1 = mux d" by simp_all
    show ?thesis
    proof (cases "\<exists>u. q = Returns u None")
      case True
      then obtain u where "q = Returns u None" by blast
      with body \<open>buf d = []\<close> rf have "fill' E d1 = Some res" by simp
      from IH [OF this] k show ?thesis by simp
    next
      case False
      with body \<open>buf d = []\<close> have "snd res = d1 \<and> (\<forall>u. fst res \<noteq> Returns u None)"
        by (auto simp: rf split: outcome.splits option.splits)
      with k show ?thesis by simp
    qed
  qed
qed

lemma Read_buffered:
  assumes "\<not> mux d" "buf d \<noteq> []"
  shows "Read E b d =
           Some ((Returns (int (min (length b) (length (buf d)))) None,
                  take (min (length b) (length (buf d))) (buf d)
                    @ drop (min (length b) (length (buf d))) b),
                 d\<lparr>buf := drop (min (length b) (length (buf d))) (buf d),
                   pos := wrap64 (pos d + int (min (length b) (length (buf d))))\<rparr>)"
proof -
  have "fill E (d\<lparr>mux := True\<rparr>) = Some (Returns () None, d\<lparr>mux := True\<rparr>)"
    using assms(2) by (subst fill.simps) simp
  moreover have "d\<lparr>buf := bs, pos := p, mux := False\<rparr> = d\<lparr>buf := bs, pos := p\<rparr>" for bs p
    using assms(1) by (cases d) simp
  ultimately show ?thesis using assms(1) by (simp add: Read_def Let_def)
qed

lemma Read_refill:
  assumes "\<not> mux d" "buf d = []"
    and "frame_Read E (source d) (frame d) = ((Some fr, None), s')"
  shows "Read E b d =
           Read E b (d\<lparr>source := s', frame := Some fr, buf := frame_Decode E fr (volume d)\<rparr>)"
proof -
  have "d\<lparr>mux := True, source := s', frame := Some fr, buf := frame_Decode E fr (volume d)\<rparr>
        = d\<lparr>source := s', frame := Some fr, buf := frame_Decode E fr (volume d), mux := True\<rparr>"
    by (cases d) simp
  moreover have "fill E (d\<lparr>mux := True\<rparr>) =
        fill E (d\<lparr>mux := True, source := s', frame := Some fr, buf := frame_Decode E fr (volume d)\<rparr>)"
    using assms(2,3) by (subst fill.simps) (simp add: readFrame_def)
  ultimately have "fill E (d\<lparr>mux := True\<rparr>) =
        fill E (d\<lparr>source := s', frame := Some fr, buf := frame_Decode E fr (volume d), mux := True\<rparr>)"
    by (simp only:)
  then show ?thesis using assms(1) by (simp add: Read_def)
qed

lemma Read_eof:
  assumes "\<not> mux d" "buf d = []"
    and "frame_Read E (source d) (frame d) = ((fr, Some e), s')"
    and "e = EOF \<or> e = UnexpectedEOF"
  shows "Read E b d = Some ((Returns 0 (Some EOF), b), d\<lparr>source := s', frame := fr\<rparr>)"
proof -
  have "fill E (d\<lparr>mux := True\<rparr>) =
          Some (Returns () (Some EOF), d\<lparr>source := s', frame := fr, mux := True\<rparr>)"
    using assms(2,3,4) by (subst fill.simps) (auto simp: readFrame_def)
  moreover have "d\<lparr>source := s', frame := fr, mux := False\<rparr> = d\<lparr>source := s', frame := fr\<rparr>"
    using assms(1) by (cases d) simp
  ultimately show ?thesis using assms(1) by (simp add: Read_def)
qed

lemma Read_ok_cases:
  assumes "Read E b d = Some ((Returns k None, b'), d')"
  shows "\<not> mux d \<and>
         (\<exists>u d1. fill E (d\<lparr>mux := True\<rparr>) = Some (Returns u None, d1) \<and>
            k = int (min (length b) (length (buf d1))) \<and>
            b' = take (min (length b) (length (buf d1))) (buf d1)
                   @ drop (min (length b) (length (buf d1))) b \<and>
            d' = d1\<lparr>buf := drop (min (length b) (length (buf d1))) (buf d1),
                    pos := wrap64 (pos d1 + k), mux := False\<rparr>)"
  using assms
  by (auto simp: Read_def Let_def split: if_splits option.splits prod.splits outcome.splits)

section \<open>The operations on the concrete stream\<close>

lemmas tape_simps =
  tape_env_def tape_frame_Read_def tape_Decode_def tape_Seek_def tape_ReadFull_def
  tape_header_Read_def SeekStart_def SeekCurrent_def SeekEnd_def

lemma tape_built: "index_built tape_decoder"
  by (simp add: index_built_def tape_decoder_def in_int64_def)

lemma tape_free: "\<not> mux tape_decoder" "\<not> mux tape_at4" "\<not> mux tape_end"
  by (simp_all add: tape_decoder_def tape_at4_def tape_end_def)

lemma tape_NewDecoder:
  "NewDecoder tape_env \<lparr>can_seek = True, cursor = 0\<rparr> = Some (Returns (Some tape_decoder) None)"
  apply (simp add: NewDecoder_def readFrame_def new_Decoder_def tape_env_def tape_frame_Read_def
      tape_Decode_def)
  apply (simp add: ensureFrameStartsAndLength_def invalidLength_def tape_Seek_def SeekCurrent_def
      SeekStart_def scanFrames.simps tape_header_Read_def tape_ReadFull_def wrap64_def
      tape_decoder_def)
  done

lemma pipe_not_Seeker: "\<not> source_isSeeker pipe_env s"
  by (simp add: pipe_env_def)

lemma pipe_NewDecoder:
  "NewDecoder pipe_env \<lparr>can_seek = False, cursor = 0\<rparr> = Some (Returns (Some pipe_decoder) None)"
  by (simp add: NewDecoder_def readFrame_def new_Decoder_def pipe_env_def tape_env_def
      tape_frame_Read_def tape_Decode_def ensureFrameStartsAndLength_def invalidLength_def
      pipe_decoder_def)

lemma tape_Seek5:
  "Seek tape_env 5 SeekStart tape_decoder = (Returns 5 None, tape_at5)"
  by (simp add: Seek_def seek_npos_def tape_decoder_def tape_at5_def go_div_def go_mod_def
      wrap64_def readFrame_def slice_from_def tape_simps)

lemma tape_Seek2:
  "Seek tape_env 2 SeekStart tape_decoder = (Returns 2 None, tape_at2)"
  by (simp add: Seek_def seek_npos_def tape_decoder_def tape_at2_def go_div_def go_mod_def
      wrap64_def readFrame_def slice_from_def tape_simps)

lemma tape_target_half:
  "target_frame tape_env (length (frameStarts tape_decoder)) (Finite (1 / 2)) = 5"
  by (simp add: target_frame_def int64_of_f64_def f64_eval in_int64_def tape_decoder_def)

lemma tape_target_zero:
  "target_frame tape_env (length (frameStarts tape_decoder)) (Finite 0) = 0"
  by (simp add: target_frame_def int64_of_f64_def f64_eval in_int64_def tape_decoder_def)

lemma tape_target_seven_tenths:
  "target_frame tape_env (length (frameStarts tape_decoder)) (Finite seven_tenths) = 7"
  by (simp add: target_frame_def int64_of_f64_def f64_eval in_int64_def tape_decoder_def
      seven_tenths_def)

lemma reel_target_third:
  "target_frame reel_env (length (frameStarts reel_decoder)) (Finite third) = 1"
  by (simp add: target_frame_def int64_of_f64_def f64_eval in_int64_def reel_decoder_def
      third_def)

lemma fraction_passes:
  "0 \<le> x \<Longrightarrow> x \<le> 1 \<Longrightarrow> \<not> f64_less (Finite x) (Finite 0) \<and> \<not> f64_less (Finite 1) (Finite x)"
  by simp

lemma tape_SeekPercent_half:
  "SeekPercent tape_env (Finite (1 / 2)) tape_decoder = (Returns 4 None, tape_half)"
  by (simp add: SeekPercent_def tape_target_half lookback_eq wrap64_def)
     (simp add: tape_decoder_def tape_half_def wrap64_def preread.simps readFrame_def tape_simps)

lemma tape_SeekPercent_zero:
  "SeekPercent tape_env (Finite 0) tape_decoder = (Returns 0 None, tape_rewound)"
  by (simp add: SeekPercent_def tape_target_zero lookback_eq wrap64_def)
     (simp add: tape_decoder_def tape_rewound_def wrap64_def preread.simps readFrame_def tape_simps)

lemma tape_SeekPercent_seven_tenths:
  "SeekPercent tape_env (Finite seven_tenths) tape_decoder = (Returns 12 None, tape_seven_tenths)"
proof -
  have "\<not> f64_less (Finite seven_tenths) (Finite 0) \<and> \<not> f64_less (Finite 1) (Finite seven_tenths)"
    by (simp add: seven_tenths_def)
  then show ?thesis
    by (simp add: SeekPercent_def tape_target_seven_tenths lookback_eq wrap64_def)
       (simp add: tape_decoder_def tape_seven_tenths_def wrap64_def preread.simps readFrame_def
          tape_simps)
qed

lemma reel_NewDecoder:
  "NewDecoder reel_env \<lparr>can_seek = True, cursor = 0\<rparr> = Some (Returns (Some reel_decoder) None)"
  apply (simp add: NewDecoder_def readFrame_def new_Decoder_def reel_env_def tape_env_def
      reel_frame_Read_def tape_Decode_def)
  apply (simp add: ensureFrameStartsAndLength_def invalidLength_def tape_Seek_def SeekCurrent_def
      SeekStart_def scanFrames.simps reel_header_Read_def reel_ReadFull_def wrap64_def
      reel_decoder_def)
  done

lemma reel_SeekPercent_third:
  "SeekPercent reel_env (Finite third) reel_decoder = (Returns 0 None, reel_primed)"
proof -
  have "\<not> f64_less (Finite third) (Finite 0) \<and> \<not> f64_less (Finite 1) (Finite third)"
    by (simp add: third_def)
  then show ?thesis
    by (simp add: SeekPercent_def reel_target_third lookback_eq wrap64_def)
       (simp add: reel_decoder_def reel_primed_def wrap64_def preread.simps readFrame_def
          reel_env_def reel_frame_Read_def tape_simps)
qed

lemma tape_Read4:
  "Read tape_env [7, 7, 7, 7] tape_decoder = Some ((Returns 4 None, [0, 0, 0, 0]), tape_at4)"
  by (simp add: Read_def fill.simps tape_decoder_def tape_at4_def wrap64_def)

section \<open>Properties\<close>

text \<open>
  Claim C1, as amended. Write \<open>T\<close> for \<^verbatim>\<open>int64(float64(frameCount) * w)\<close> as the code computes
  it, the product rounded to \<^verbatim>\<open>float64\<close>. On a decoder whose frame index is built, a
  successful \<^verbatim>\<open>SeekPercent(w)\<close> returns \<open>bytesPerFrame * max 0 (T - 4)\<close>, the subtraction being
  an \<^verbatim>\<open>int64\<close> one (it cannot wrap when \<open>0 \<le> T\<close>, which \<open>target_frame_fraction\<close> gives for
  the fractions in \<open>[0, 1]\<close>): the byte offset of the frame four before
  frame \<open>T\<close>, or of frame 0 when fewer than four frames precede it. \<^verbatim>\<open>d.pos\<close> is assigned
  before the pre-read loop and not again. The returned value is an exact multiple of
  \<^verbatim>\<open>bytesPerFrame\<close> and is the decoder's new position.
\<close>

theorem SeekPercent_lookback_position:
  assumes built: "index_built d"
    and ok: "SeekPercent E w d = (Returns r None, d')"
  shows "r = bytesPerFrame d * max 0 (wrap64 (target_frame E (length (frameStarts d)) w - 4)) \<and>
         (0 \<le> target_frame E (length (frameStarts d)) w \<longrightarrow>
            r = bytesPerFrame d * max 0 (target_frame E (length (frameStarts d)) w - 4)) \<and>
         bytesPerFrame d dvd r \<and> pos d' = r"
proof -
  let ?b = "bytesPerFrame d" and ?n = "int (length (frameStarts d))"
  let ?T = "target_frame E (length (frameStarts d)) w"
  from SeekPercent_ok_cases [OF ok] obtain frameIndex offset x s1 d3 where
    lb: "lookback (wrap64 (?T - 4)) 4 = (frameIndex, offset)"
    and fi: "0 \<le> frameIndex" "frameIndex < ?n"
    and pr: "preread E 0 offset frameIndex
              (d\<lparr>mux := True, frame := None, pos := wrap64 (?b * frameIndex), source := s1\<rparr>)
              = (Returns () None, d3)"
    and r: "r = pos d3" and d': "d' = d3\<lparr>mux := False\<rparr>"
    by blast
  from lb have fidx: "frameIndex = max 0 (wrap64 (?T - 4))"
    by (auto simp: lookback_eq split: if_splits)
  from built have b: "0 < ?b" and len: "in_int64 (?b * ?n)"
    by (auto simp: index_built_def)
  have "?b * frameIndex \<le> ?b * ?n" using fi b by (intro mult_left_mono) auto
  moreover have "0 \<le> ?b * frameIndex" using fi b by simp
  ultimately have "- (2 ^ 63) \<le> ?b * frameIndex \<and> ?b * frameIndex < 2 ^ 63"
    using len unfolding in_int64_def by linarith
  then have "in_int64 (?b * frameIndex)" unfolding in_int64_def .
  then have w: "wrap64 (?b * frameIndex) = ?b * frameIndex" by (rule wrap64_id)
  from preread_keeps [OF pr] have p3: "pos d3 = ?b * frameIndex" by (simp add: w)
  have nowrap: "wrap64 (?T - 4) = ?T - 4" if "0 \<le> ?T"
  proof -
    from target_frame_in_int64 [of E "length (frameStarts d)" w] that
    have "in_int64 (?T - 4)" by (simp add: in_int64_def)
    then show ?thesis by (rule wrap64_id)
  qed
  from p3 r d' fidx nowrap show ?thesis by simp
qed

theorem SeekPercent_lookback_position_witness:
  "index_built tape_decoder \<and>
   SeekPercent tape_env (Finite (1 / 2)) tape_decoder = (Returns 4 None, tape_half) \<and>
   target_frame tape_env (length (frameStarts tape_decoder)) (Finite (1 / 2)) = 5 \<and>
   4 = bytesPerFrame tape_decoder * max 0 (5 - 4) \<and>
   bytesPerFrame tape_decoder dvd 4 \<and> pos tape_half = 4 \<and>
   f64_round seven_tenths = Finite seven_tenths \<and>
   \<lfloor>real (length (frameStarts tape_decoder)) * seven_tenths\<rfloor> = 6 \<and>
   target_frame tape_env (length (frameStarts tape_decoder)) (Finite seven_tenths) = 7 \<and>
   SeekPercent tape_env (Finite seven_tenths) tape_decoder
     = (Returns 12 None, tape_seven_tenths) \<and>
   12 = bytesPerFrame tape_decoder * max 0 (7 - 4) \<and> pos tape_seven_tenths = 12"
proof -
  have a: "f64_round seven_tenths = Finite seven_tenths"
    by (simp add: seven_tenths_def f64_eval)
  have b: "\<lfloor>real (length (frameStarts tape_decoder)) * seven_tenths\<rfloor> = 6"
    by (simp add: seven_tenths_def tape_decoder_def)
  from SeekPercent_lookback_position [OF tape_built tape_SeekPercent_half]
  have c: "4 = bytesPerFrame tape_decoder * max 0 (5 - 4) \<and>
           bytesPerFrame tape_decoder dvd 4 \<and> pos tape_half = 4"
    by (simp add: tape_target_half)
  from SeekPercent_lookback_position [OF tape_built tape_SeekPercent_seven_tenths]
  have d: "12 = bytesPerFrame tape_decoder * max 0 (7 - 4) \<and> pos tape_seven_tenths = 12"
    by (simp add: tape_target_seven_tenths)
  from a b c d tape_built tape_SeekPercent_half tape_target_half tape_target_seven_tenths
    tape_SeekPercent_seven_tenths
  show ?thesis by blast
qed

text \<open>
  Claim C1 as stated fails on the ten-frame stream: \<^verbatim>\<open>SeekPercent(0.5)\<close> returns 4, the
  offset of frame 1, while \<open>bytesPerFrame * \<lfloor>10 * 0.5\<rfloor> = 20\<close>; the product \<open>10 * 0.5\<close> is
  exact in \<^verbatim>\<open>float64\<close>.
\<close>

theorem SeekPercent_target_counterexample:
  "index_built tape_decoder \<and>
   SeekPercent tape_env (Finite (1 / 2)) tape_decoder = (Returns 4 None, tape_half) \<and>
   bytesPerFrame tape_decoder * \<lfloor>real (length (frameStarts tape_decoder)) * (1 / 2)\<rfloor> = 20 \<and>
   bytesPerFrame tape_decoder
     * target_frame tape_env (length (frameStarts tape_decoder)) (Finite (1 / 2)) = 20"
  by (simp add: tape_built tape_SeekPercent_half tape_target_half) (simp add: tape_decoder_def)

text \<open>
  Claim C2. On a decoder that \<^verbatim>\<open>NewDecoder\<close> built over a reader that is no \<^verbatim>\<open>io.Seeker\<close>,
  the length is the sentinel \<open>-1\<close> and \<^verbatim>\<open>bytesPerFrame\<close> is still 0, so
  \<^verbatim>\<open>Seek(offset, io.SeekEnd)\<close> reaches the division \<^verbatim>\<open>d.pos / d.bytesPerFrame\<close> and panics,
  for every offset: what the code does is a panic, not the error that the claim and the
  comment on \<^verbatim>\<open>Seek\<close> announce.
\<close>

theorem Seek_end_unknown_length_panics:
  assumes ns: "\<And>s. \<not> source_isSeeker E s"
    and nd: "NewDecoder E s0 = Some (Returns (Some d) None)"
  shows "Length d = invalidLength \<and> fst (Seek E offset SeekEnd d) = Panics DivideByZero"
  using NewDecoder_unseekable [OF ns nd]
  by (simp add: Length_def Seek_def seek_npos_def SeekEnd_def SeekCurrent_def SeekStart_def)

theorem Seek_end_unknown_length_panics_witness:
  "(\<forall>s. \<not> source_isSeeker pipe_env s) \<and>
   NewDecoder pipe_env \<lparr>can_seek = False, cursor = 0\<rparr> = Some (Returns (Some pipe_decoder) None) \<and>
   Length pipe_decoder = invalidLength \<and>
   fst (Seek pipe_env 100 SeekEnd pipe_decoder) = Panics DivideByZero"
  using Seek_end_unknown_length_panics [OF pipe_not_Seeker pipe_NewDecoder, of 100]
    pipe_not_Seeker pipe_NewDecoder by simp

text \<open>
  Claim C3. \<^verbatim>\<open>SeekPercent\<close> rejects a fraction below 0 or above 1 with an error and leaves the
  decoder as it was. On a decoder without a frame index (a reader that is no \<^verbatim>\<open>io.Seeker\<close>),
  every other argument, the fractions inside \<open>[0, 1]\<close> and NaN, does not yield an error: the
  code indexes the empty \<^verbatim>\<open>frameStarts\<close> and panics.
\<close>

theorem SeekPercent_without_index:
  assumes ns: "\<And>s. \<not> source_isSeeker E s"
    and nd: "NewDecoder E s0 = Some (Returns (Some d) None)"
  shows "(f64_less w (Finite 0) \<or> f64_less (Finite 1) w \<longrightarrow>
            (\<exists>msg. SeekPercent E w d = (Returns 0 (Some (Error msg)), d))) \<and>
         (\<not> f64_less w (Finite 0) \<and> \<not> f64_less (Finite 1) w \<longrightarrow>
            frameStarts d = [] \<and> fst (SeekPercent E w d) = Panics IndexOutOfRange)"
  using NewDecoder_unseekable [OF ns nd]
  by (auto simp: SeekPercent_def Let_def lookback_eq split: prod.splits)

theorem SeekPercent_without_index_witness:
  "(\<forall>s. \<not> source_isSeeker pipe_env s) \<and>
   NewDecoder pipe_env \<lparr>can_seek = False, cursor = 0\<rparr> = Some (Returns (Some pipe_decoder) None) \<and>
   f64_less (Finite 1) (Finite 2) \<and>
   (\<exists>msg. SeekPercent pipe_env (Finite 2) pipe_decoder
            = (Returns 0 (Some (Error msg)), pipe_decoder)) \<and>
   f64_less (Finite (- 1)) (Finite 0) \<and>
   (\<exists>msg. SeekPercent pipe_env (Finite (- 1)) pipe_decoder
            = (Returns 0 (Some (Error msg)), pipe_decoder)) \<and>
   \<not> f64_less (Finite (1 / 2)) (Finite 0) \<and> \<not> f64_less (Finite 1) (Finite (1 / 2)) \<and>
   frameStarts pipe_decoder = [] \<and>
   fst (SeekPercent pipe_env (Finite (1 / 2)) pipe_decoder) = Panics IndexOutOfRange \<and>
   \<not> f64_less NaN (Finite 0) \<and> \<not> f64_less (Finite 1) NaN \<and>
   fst (SeekPercent pipe_env NaN pipe_decoder) = Panics IndexOutOfRange"
  using SeekPercent_without_index [OF pipe_not_Seeker pipe_NewDecoder, of "Finite 2"]
    SeekPercent_without_index [OF pipe_not_Seeker pipe_NewDecoder, of "Finite (- 1)"]
    SeekPercent_without_index [OF pipe_not_Seeker pipe_NewDecoder, of "Finite (1 / 2)"]
    SeekPercent_without_index [OF pipe_not_Seeker pipe_NewDecoder, of NaN]
    pipe_not_Seeker pipe_NewDecoder by simp

text \<open>
  Claim C4, as amended. Take a successful \<^verbatim>\<open>Seek(offset, whence)\<close> other than the position
  query \<^verbatim>\<open>Seek(0, io.SeekCurrent)\<close>, returning \<open>t\<close> with \<open>0 \<le> t < Length\<close>, on a decoder with
  a built frame index whose frames decode to \<^verbatim>\<open>bytesPerFrame\<close> bytes each. With
  \<open>f = t div bytesPerFrame\<close>: if \<open>f > 0\<close> the source is moved to \<open>frameStarts[f - 1]\<close>, that
  frame is read without context and its output dropped, the next frame is read with it as
  context, and the buffer is left with that frame's bytes from \<open>t mod bytesPerFrame\<close> on; if
  \<open>f = 0\<close> only frame 0 is read and the buffer holds its bytes from \<open>t\<close> on. The position
  becomes \<open>t\<close>.
\<close>

theorem Seek_decodes_target_frame:
  assumes ok: "Seek E offset whence d = (Returns t None, d')"
    and nq: "\<not> (offset = 0 \<and> whence = SeekCurrent)"
    and rng: "0 \<le> t" "t < Length d"
    and built: "index_built d"
    and fmt: "\<And>fr. length (frame_Decode E fr (volume d)) = nat (bytesPerFrame d)"
  shows
    "if 0 < t div bytesPerFrame d then
       (\<exists>x s1 fr1 s2 fr2 s3.
           source_Seek E (source d) (frameStarts d ! nat (t div bytesPerFrame d - 1)) 0
             = (Inr x, s1) \<and>
           frame_Read E s1 None = ((Some fr1, None), s2) \<and>
           frame_Read E s2 (Some fr1) = ((Some fr2, None), s3) \<and>
           d' = d\<lparr>pos := t, source := s3, frame := Some fr2,
                  buf := drop (nat (t mod bytesPerFrame d)) (frame_Decode E fr2 (volume d))\<rparr>)
     else
       (\<exists>x s1 fr s2.
           source_Seek E (source d) (frameStarts d ! 0) 0 = (Inr x, s1) \<and>
           frame_Read E s1 None = ((Some fr, None), s2) \<and>
           d' = d\<lparr>pos := t, source := s2, frame := Some fr,
                  buf := drop (nat t) (frame_Decode E fr (volume d))\<rparr>)"
proof -
  let ?b = "bytesPerFrame d"
  from built have b: "0 < ?b" and len: "in_int64 (length_d d)"
    by (auto simp: index_built_def)
  from rng len have t64: "in_int64 t" by (simp add: in_int64_def Length_def)
  have dv: "go_div t ?b = t div ?b" using rng(1) b t64 by (rule go_div_nonneg)
  have md: "go_mod t ?b = t mod ?b" using rng(1) b by (rule go_mod_nonneg)
  from Seek_ok_cases [OF ok nq] have
    cs: "if t div ?b > 0 then
           (\<exists>x s1 d2 d3. source_Seek E (source d) (frameStarts d ! nat (t div ?b - 1)) 0 = (Inr x, s1) \<and>
              readFrame E (d\<lparr>pos := t, buf := [], frame := None, source := s1\<rparr>) = (Returns () None, d2) \<and>
              readFrame E d2 = (Returns () None, d3) \<and>
              slice_from (wrap64 (bytesPerFrame d3 + go_mod (pos d3) (bytesPerFrame d3))) d3 = Some d')
         else
           0 \<le> t div ?b \<and>
           (\<exists>x s1 d2. source_Seek E (source d) (frameStarts d ! nat (t div ?b)) 0 = (Inr x, s1) \<and>
              readFrame E (d\<lparr>pos := t, buf := [], frame := None, source := s1\<rparr>) = (Returns () None, d2) \<and>
              slice_from (pos d2) d2 = Some d')"
    by (simp add: dv split: if_splits)
  show ?thesis
  proof (cases "0 < t div ?b")
    case True
    with cs obtain x s1 d2 d3 where
      sk: "source_Seek E (source d) (frameStarts d ! nat (t div ?b - 1)) 0 = (Inr x, s1)"
      and r1: "readFrame E (d\<lparr>pos := t, buf := [], frame := None, source := s1\<rparr>) = (Returns () None, d2)"
      and r2: "readFrame E d2 = (Returns () None, d3)"
      and sl: "slice_from (wrap64 (bytesPerFrame d3 + go_mod (pos d3) (bytesPerFrame d3))) d3 = Some d'"
      by auto
    from readFrame_ok [OF r1] obtain fr1 s2 where
      f1: "frame_Read E s1 None = ((Some fr1, None), s2)"
      and d2: "d2 = d\<lparr>pos := t, buf := frame_Decode E fr1 (volume d), frame := Some fr1, source := s2\<rparr>"
      by auto
    from readFrame_ok [OF r2] d2 obtain fr2 s3 where
      f2: "frame_Read E s2 (Some fr1) = ((Some fr2, None), s3)"
      and d3: "d3 = d\<lparr>pos := t, frame := Some fr2, source := s3,
                  buf := frame_Decode E fr1 (volume d) @ frame_Decode E fr2 (volume d)\<rparr>"
      by auto
    have m0: "0 \<le> t mod ?b" using b by simp
    have "t mod ?b \<le> t - ?b"
    proof -
      have "t = ?b * (t div ?b) + t mod ?b" by simp
      moreover have "?b * 1 \<le> ?b * (t div ?b)" using True b by (intro mult_left_mono) auto
      ultimately show ?thesis by linarith
    qed
    with m0 b t64 have "- (2 ^ 63) \<le> ?b + t mod ?b \<and> ?b + t mod ?b < 2 ^ 63"
      unfolding in_int64_def by linarith
    then have k64: "in_int64 (?b + t mod ?b)" unfolding in_int64_def .
    have k: "wrap64 (bytesPerFrame d3 + go_mod (pos d3) (bytesPerFrame d3)) = ?b + t mod ?b"
      using k64 by (simp add: d3 md wrap64_id)
    from slice_from_Some [OF sl] have
      "d' = d3\<lparr>buf := drop (nat (?b + t mod ?b)) (buf d3)\<rparr>" by (simp add: k)
    moreover have "drop (nat (?b + t mod ?b)) (buf d3) = drop (nat (t mod ?b)) (frame_Decode E fr2 (volume d))"
      using fmt [of fr1] b m0 by (simp add: d3 nat_add_distrib)
    ultimately have "d' = d\<lparr>pos := t, source := s3, frame := Some fr2,
                  buf := drop (nat (t mod ?b)) (frame_Decode E fr2 (volume d))\<rparr>"
      by (simp add: d3)
    with sk f1 f2 True show ?thesis by auto
  next
    case False
    with cs have z: "t div ?b = 0" by auto
    with cs obtain x s1 d2 where
      sk: "source_Seek E (source d) (frameStarts d ! 0) 0 = (Inr x, s1)"
      and r1: "readFrame E (d\<lparr>pos := t, buf := [], frame := None, source := s1\<rparr>) = (Returns () None, d2)"
      and sl: "slice_from (pos d2) d2 = Some d'"
      by auto
    from readFrame_ok [OF r1] obtain fr s2 where
      f1: "frame_Read E s1 None = ((Some fr, None), s2)"
      and d2: "d2 = d\<lparr>pos := t, buf := frame_Decode E fr (volume d), frame := Some fr, source := s2\<rparr>"
      by auto
    from slice_from_Some [OF sl] have
      "d' = d\<lparr>pos := t, source := s2, frame := Some fr,
                  buf := drop (nat t) (frame_Decode E fr (volume d))\<rparr>" by (simp add: d2)
    with sk f1 False show ?thesis by auto
  qed
qed

theorem Seek_decodes_target_frame_witness:
  "Seek tape_env 5 SeekStart tape_decoder = (Returns 5 None, tape_at5) \<and>
   \<not> (5 = (0 :: int) \<and> SeekStart = SeekCurrent) \<and> 5 < Length tape_decoder \<and>
   index_built tape_decoder \<and>
   (\<forall>fr. length (frame_Decode tape_env fr (volume tape_decoder))
           = nat (bytesPerFrame tape_decoder)) \<and>
   0 < 5 div bytesPerFrame tape_decoder \<and>
   (\<exists>x s1 fr1 s2 fr2 s3.
       source_Seek tape_env (source tape_decoder)
           (frameStarts tape_decoder ! nat (5 div bytesPerFrame tape_decoder - 1)) 0
         = (Inr x, s1) \<and>
       frame_Read tape_env s1 None = ((Some fr1, None), s2) \<and>
       frame_Read tape_env s2 (Some fr1) = ((Some fr2, None), s3) \<and>
       tape_at5 = tape_decoder\<lparr>pos := 5, source := s3, frame := Some fr2,
              buf := drop (nat (5 mod bytesPerFrame tape_decoder))
                       (frame_Decode tape_env fr2 (volume tape_decoder))\<rparr>) \<and>
   buf tape_at5 = [11, 12, 13] \<and>
   Seek tape_env 2 SeekStart tape_decoder = (Returns 2 None, tape_at2) \<and>
   \<not> 0 < 2 div bytesPerFrame tape_decoder \<and>
   (\<exists>x s1 fr s2.
       source_Seek tape_env (source tape_decoder) (frameStarts tape_decoder ! 0) 0
         = (Inr x, s1) \<and>
       frame_Read tape_env s1 None = ((Some fr, None), s2) \<and>
       tape_at2 = tape_decoder\<lparr>pos := 2, source := s2, frame := Some fr,
              buf := drop (nat 2) (frame_Decode tape_env fr (volume tape_decoder))\<rparr>) \<and>
   buf tape_at2 = [2, 3]"
proof -
  have nq5: "\<not> (5 = (0 :: int) \<and> SeekStart = SeekCurrent)"
    and nq2: "\<not> (2 = (0 :: int) \<and> SeekStart = SeekCurrent)" by simp_all
  have lt5: "5 < Length tape_decoder" and lt2: "2 < Length tape_decoder"
    by (simp_all add: Length_def tape_decoder_def)
  have fmt: "\<And>fr. length (frame_Decode tape_env fr (volume tape_decoder))
                   = nat (bytesPerFrame tape_decoder)"
    by (simp add: tape_env_def tape_Decode_def tape_decoder_def)
  have f5: "0 < 5 div bytesPerFrame tape_decoder"
    and f2: "\<not> 0 < 2 div bytesPerFrame tape_decoder" by (simp_all add: tape_decoder_def)
  from Seek_decodes_target_frame [OF tape_Seek5 nq5 _ lt5 tape_built fmt] f5
  have a: "\<exists>x s1 fr1 s2 fr2 s3.
       source_Seek tape_env (source tape_decoder)
           (frameStarts tape_decoder ! nat (5 div bytesPerFrame tape_decoder - 1)) 0
         = (Inr x, s1) \<and>
       frame_Read tape_env s1 None = ((Some fr1, None), s2) \<and>
       frame_Read tape_env s2 (Some fr1) = ((Some fr2, None), s3) \<and>
       tape_at5 = tape_decoder\<lparr>pos := 5, source := s3, frame := Some fr2,
              buf := drop (nat (5 mod bytesPerFrame tape_decoder))
                       (frame_Decode tape_env fr2 (volume tape_decoder))\<rparr>"
    by simp
  from Seek_decodes_target_frame [OF tape_Seek2 nq2 _ lt2 tape_built fmt] f2
  have b: "\<exists>x s1 fr s2.
       source_Seek tape_env (source tape_decoder) (frameStarts tape_decoder ! 0) 0
         = (Inr x, s1) \<and>
       frame_Read tape_env s1 None = ((Some fr, None), s2) \<and>
       tape_at2 = tape_decoder\<lparr>pos := 2, source := s2, frame := Some fr,
              buf := drop (nat 2) (frame_Decode tape_env fr (volume tape_decoder))\<rparr>"
    by simp
  have c: "buf tape_at5 = [11, 12, 13]" "buf tape_at2 = [2, 3]"
    by (simp_all add: tape_at5_def tape_at2_def)
  from tape_Seek5 tape_Seek2 nq5 lt5 tape_built fmt f5 f2 a b c show ?thesis by blast
qed

text \<open>
  Claim C4 as stated fails for the position query. After four bytes have been read from the
  fresh decoder the position is 4, inside frame 1; \<^verbatim>\<open>Seek(0, io.SeekCurrent)\<close> succeeds with
  4 but reads no frame: the source still stands at the start of frame 1 and the buffer is
  empty, not frame 1's bytes.
\<close>

theorem Seek_query_decodes_nothing_counterexample:
  "Read tape_env [7, 7, 7, 7] tape_decoder = Some ((Returns 4 None, [0, 0, 0, 0]), tape_at4) \<and>
   Seek tape_env 0 SeekCurrent tape_at4 = (Returns 4 None, tape_at4) \<and>
   index_built tape_at4 \<and> 4 < Length tape_at4 \<and> 0 < 4 div bytesPerFrame tape_at4 \<and>
   buf tape_at4 = [] \<and> source tape_at4 = source tape_decoder \<and>
   frame_Decode tape_env 1 (volume tape_at4) = [10, 11, 12, 13]"
  by (simp add: tape_Read4 Seek_def)
     (simp add: tape_at4_def tape_decoder_def index_built_def in_int64_def Length_def tape_simps)

text \<open>
  Claim C5, as amended. For a call \<^verbatim>\<open>Read(b)\<close> on a decoder whose mutex is free: with bytes
  in the buffer it copies \<open>min (len b) (len buf)\<close> of them, drops them from the buffer, adds
  that count to the position in \<^verbatim>\<open>int64\<close> arithmetic and returns it; with an empty buffer
  and a next frame it behaves as on the decoder with that frame decoded and appended; with
  an empty buffer and an end-of-file or unexpected-end-of-file error from the frame reader it
  returns 0 and \<^verbatim>\<open>io.EOF\<close>. Every successful read returns a count between 0 and \<open>len b\<close>
  and, short of overflow, moves the position forward by exactly that count: never
  backwards, and strictly forwards when \<open>b\<close> is not empty.
\<close>

theorem Read_contract:
  assumes free: "\<not> mux d"
  shows
    "(buf d \<noteq> [] \<longrightarrow>
        Read E b d =
          Some ((Returns (int (min (length b) (length (buf d)))) None,
                 take (min (length b) (length (buf d))) (buf d)
                   @ drop (min (length b) (length (buf d))) b),
                d\<lparr>buf := drop (min (length b) (length (buf d))) (buf d),
                  pos := wrap64 (pos d + int (min (length b) (length (buf d))))\<rparr>)) \<and>
     (buf d = [] \<longrightarrow>
        (\<forall>fr s'. frame_Read E (source d) (frame d) = ((Some fr, None), s') \<longrightarrow>
           Read E b d =
             Read E b (d\<lparr>source := s', frame := Some fr,
                         buf := frame_Decode E fr (volume d)\<rparr>))) \<and>
     (buf d = [] \<longrightarrow>
        (\<forall>fr e s'. frame_Read E (source d) (frame d) = ((fr, Some e), s') \<longrightarrow>
           (e = EOF \<or> e = UnexpectedEOF) \<longrightarrow>
           Read E b d = Some ((Returns 0 (Some EOF), b), d\<lparr>source := s', frame := fr\<rparr>))) \<and>
     (\<forall>k b' d'. Read E b d = Some ((Returns k None, b'), d') \<longrightarrow>
        0 \<le> k \<and> k \<le> int (length b) \<and> (b \<noteq> [] \<longrightarrow> 0 < k) \<and>
        pos d' = wrap64 (pos d + k) \<and>
        (in_int64 (pos d + k) \<longrightarrow>
           pos d' = pos d + k \<and> pos d \<le> pos d' \<and> (b \<noteq> [] \<longrightarrow> pos d < pos d')))"
proof (intro conjI impI allI)
  assume "buf d \<noteq> []"
  with free show "Read E b d =
          Some ((Returns (int (min (length b) (length (buf d)))) None,
                 take (min (length b) (length (buf d))) (buf d)
                   @ drop (min (length b) (length (buf d))) b),
                d\<lparr>buf := drop (min (length b) (length (buf d))) (buf d),
                  pos := wrap64 (pos d + int (min (length b) (length (buf d))))\<rparr>)"
    by (rule Read_buffered)
next
  fix fr s'
  assume "buf d = []" "frame_Read E (source d) (frame d) = ((Some fr, None), s')"
  with free show "Read E b d =
             Read E b (d\<lparr>source := s', frame := Some fr,
                         buf := frame_Decode E fr (volume d)\<rparr>)"
    by (rule Read_refill)
next
  fix fr e s'
  assume "buf d = []" "frame_Read E (source d) (frame d) = ((fr, Some e), s')"
    "e = EOF \<or> e = UnexpectedEOF"
  with free show "Read E b d = Some ((Returns 0 (Some EOF), b), d\<lparr>source := s', frame := fr\<rparr>)"
    by (rule Read_eof)
next
  fix k b' d'
  assume ok: "Read E b d = Some ((Returns k None, b'), d')"
  from Read_ok_cases [OF ok] obtain u d1 where
    fl: "fill E (d\<lparr>mux := True\<rparr>) = Some (Returns u None, d1)"
    and k: "k = int (min (length b) (length (buf d1)))"
    and d': "d' = d1\<lparr>buf := drop (min (length b) (length (buf d1))) (buf d1),
                    pos := wrap64 (pos d1 + k), mux := False\<rparr>"
    by blast
  from fill_keeps [OF fl] have p: "pos d1 = pos d" and ne: "buf d1 \<noteq> []" by simp_all
  show "0 \<le> k" by (simp add: k)
  show "k \<le> int (length b)" by (simp add: k)
  show w: "pos d' = wrap64 (pos d + k)" by (simp add: d' p)
  { assume "b \<noteq> []"
    with ne show "0 < k" by (simp add: k) }
  note kpos = this
  { assume r: "in_int64 (pos d + k)"
    then show e: "pos d' = pos d + k" by (simp add: w wrap64_id)
    show "pos d \<le> pos d'" by (simp add: e k)
    { assume "b \<noteq> []"
      from kpos [OF this] show "pos d < pos d'" by (simp add: e) } }
qed

theorem Read_contract_witness:
  "\<not> mux tape_decoder \<and> buf tape_decoder \<noteq> [] \<and> [7, 7] \<noteq> ([] :: byte list) \<and>
   Read tape_env [7, 7] tape_decoder
     = Some ((Returns 2 None, [0, 0]), tape_decoder\<lparr>buf := [0, 0], pos := 2\<rparr>) \<and>
   in_int64 (pos tape_decoder + 2) \<and>
   pos (tape_decoder\<lparr>buf := [0, 0], pos := 2\<rparr>) = pos tape_decoder + 2 \<and>
   pos tape_decoder < pos (tape_decoder\<lparr>buf := [0, 0], pos := 2\<rparr>) \<and>
   \<not> mux tape_at4 \<and> buf tape_at4 = [] \<and>
   frame_Read tape_env (source tape_at4) (frame tape_at4)
     = ((Some 1, None), \<lparr>can_seek = True, cursor = 16\<rparr>) \<and>
   Read tape_env [7, 7] tape_at4 = Read tape_env [7, 7] tape_refilled \<and>
   \<not> mux tape_end \<and> buf tape_end = [] \<and>
   frame_Read tape_env (source tape_end) (frame tape_end) = ((None, Some EOF), source tape_end) \<and>
   Read tape_env [7, 7] tape_end = Some ((Returns 0 (Some EOF), [7, 7]), tape_end\<lparr>frame := None\<rparr>)"
proof -
  have a: "buf tape_decoder \<noteq> []" by (simp add: tape_decoder_def)
  have b: "buf tape_at4 = []" by (simp add: tape_at4_def)
  have c: "buf tape_end = []" by (simp add: tape_end_def)
  have f4: "frame_Read tape_env (source tape_at4) (frame tape_at4)
     = ((Some 1, None), \<lparr>can_seek = True, cursor = 16\<rparr>)"
    by (simp add: tape_at4_def tape_env_def tape_frame_Read_def)
  have fe: "frame_Read tape_env (source tape_end) (frame tape_end) = ((None, Some EOF), source tape_end)"
    by (simp add: tape_end_def tape_env_def tape_frame_Read_def)
  have r1: "Read tape_env [7, 7] tape_decoder
     = Some ((Returns 2 None, [0, 0]), tape_decoder\<lparr>buf := [0, 0], pos := 2\<rparr>)"
    using Read_contract [OF tape_free(1), of tape_env "[7, 7]"] a
    by (simp add: tape_decoder_def wrap64_def)
  have i: "in_int64 (pos tape_decoder + 2)" by (simp add: tape_decoder_def in_int64_def)
  have ne: "[7, 7] \<noteq> ([] :: byte list)" by simp
  from Read_contract [OF tape_free(1), of tape_env "[7, 7]"] have
    "\<forall>k b' d'. Read tape_env [7, 7] tape_decoder = Some ((Returns k None, b'), d') \<longrightarrow>
        (in_int64 (pos tape_decoder + k) \<longrightarrow>
           pos d' = pos tape_decoder + k \<and> ([7, 7] \<noteq> ([] :: byte list) \<longrightarrow> pos tape_decoder < pos d'))"
    by blast
  with r1 i ne have r1': "pos (tape_decoder\<lparr>buf := [0, 0], pos := 2\<rparr>) = pos tape_decoder + 2 \<and>
     pos tape_decoder < pos (tape_decoder\<lparr>buf := [0, 0], pos := 2\<rparr>)"
    by blast
  have "tape_at4\<lparr>source := \<lparr>can_seek = True, cursor = 16\<rparr>, frame := Some 1,
                  buf := frame_Decode tape_env 1 (volume tape_at4)\<rparr> = tape_refilled"
    by (simp add: tape_at4_def tape_refilled_def tape_env_def tape_Decode_def)
  with Read_contract [OF tape_free(2), of tape_env "[7, 7]"] b f4
  have r2: "Read tape_env [7, 7] tape_at4 = Read tape_env [7, 7] tape_refilled"
    by simp
  have "tape_end\<lparr>source := source tape_end, frame := None\<rparr> = tape_end\<lparr>frame := None\<rparr>"
    by (simp add: tape_end_def)
  with Read_contract [OF tape_free(3), of tape_env "[7, 7]"] c fe
  have r3: "Read tape_env [7, 7] tape_end
      = Some ((Returns 0 (Some EOF), [7, 7]), tape_end\<lparr>frame := None\<rparr>)"
    by simp
  from tape_free a b c f4 fe r1 r1' r2 r3 i ne show ?thesis by blast
qed

text \<open>
  Claim C5 as stated fails for an empty destination: \<^verbatim>\<open>Read\<close> succeeds with count 0 and the
  position does not increase.
\<close>

theorem Read_empty_buffer_counterexample:
  "Read tape_env [] tape_decoder = Some ((Returns 0 None, []), tape_decoder) \<and>
   \<not> pos tape_decoder < pos tape_decoder"
  by (simp add: Read_def fill.simps tape_decoder_def wrap64_def)

text \<open>
  Claim C6. \<^verbatim>\<open>Seek(0, io.SeekCurrent)\<close> is a pure query in every decoder state: it returns
  the current position and leaves the whole decoder (position, output buffer, frame state
  and source) as it was.
\<close>

theorem Seek_query_pure:
  "Seek E 0 SeekCurrent d = (Returns (pos d) None, d)"
  by (simp add: Seek_def)

text \<open>
  Claim C7. A successful \<^verbatim>\<open>Seek(x, io.SeekStart)\<close> returns \<open>x\<close>, and the position query
  \<^verbatim>\<open>Seek(0, io.SeekCurrent)\<close> that follows returns \<open>x\<close> as well, leaving the decoder
  unchanged.
\<close>

theorem Seek_start_roundtrip:
  assumes "Seek E x SeekStart d = (Returns r None, d')"
  shows "r = x \<and> Seek E 0 SeekCurrent d' = (Returns x None, d')"
proof -
  have nq: "\<not> (x = 0 \<and> SeekStart = SeekCurrent)"
    by (simp add: SeekStart_def SeekCurrent_def)
  from Seek_ok_cases [OF assms nq] have r: "r = x"
    by (auto simp: seek_npos_def)
  from Seek_ok_pos [OF assms] nq have "pos d' = r" by simp
  with r show ?thesis by (simp add: Seek_def)
qed

theorem Seek_start_roundtrip_witness:
  "Seek tape_env 5 SeekStart tape_decoder = (Returns 5 None, tape_at5) \<and>
   Seek tape_env 0 SeekCurrent tape_at5 = (Returns 5 None, tape_at5)"
  using Seek_start_roundtrip [OF tape_Seek5] tape_Seek5 by simp

text \<open>
  Claim C8. \<^verbatim>\<open>Read\<close> and \<^verbatim>\<open>SeekPercent\<close> wait for the mutex; \<^verbatim>\<open>Seek\<close> does not take it.
  On the decoder whose mutex is held by another call, \<^verbatim>\<open>Read\<close> and \<^verbatim>\<open>SeekPercent\<close> wait
  and change nothing, while \<^verbatim>\<open>Seek(5, io.SeekStart)\<close> runs to the end and rewrites the
  position, the buffer, the frame state and the source position.
\<close>

theorem Seek_without_lock:
  "mux tape_held \<and>
   Read tape_env [7, 7] tape_held = Some ((Blocks, [7, 7]), tape_held) \<and>
   SeekPercent tape_env (Finite (1 / 2)) tape_held = (Blocks, tape_held) \<and>
   Seek tape_env 5 SeekStart tape_held = (Returns 5 None, tape_at5\<lparr>mux := True\<rparr>)"
  by (simp add: tape_held_def Read_def SeekPercent_def)
     (simp add: Seek_def seek_npos_def tape_decoder_def tape_at5_def go_div_def go_mod_def
        wrap64_def readFrame_def slice_from_def tape_simps)

text \<open>
  Claim C9. Whenever \<^verbatim>\<open>NewDecoder\<close> returns a decoder, the bytes in its buffer are the
  first frame decoded at volume 0, and the decoder reports volume 1.
\<close>

theorem NewDecoder_first_frame_volume_zero:
  assumes "NewDecoder E s = Some (Returns (Some d) None)"
  shows "\<exists>s1 fr s2. source_skipTags E s = (None, s1) \<and>
           frame_Read E s1 None = ((Some fr, None), s2) \<and>
           buf d = frame_Decode E fr 0 \<and> GetVolume d = 1"
proof -
  from NewDecoder_ok_cases [OF assms] obtain s1 fr s2 freq d2 where
    a: "source_skipTags E s = (None, s1)" "frame_Read E s1 None = ((Some fr, None), s2)"
    and e: "ensureFrameStartsAndLength E
             ((new_Decoder s1)\<lparr>source := s2, frame := Some fr, buf := frame_Decode E fr 0,
                 sampleRate := freq\<rparr>) = Some (Returns () None, d2)"
    and d: "d = d2\<lparr>volume := 1\<rparr>"
    by blast
  from ensure_keeps [OF e] have "buf d2 = frame_Decode E fr 0" by simp
  with a d show ?thesis by (auto simp: GetVolume_def)
qed

theorem NewDecoder_first_frame_volume_zero_witness:
  "NewDecoder tape_env \<lparr>can_seek = True, cursor = 0\<rparr> = Some (Returns (Some tape_decoder) None) \<and>
   frame_Read tape_env \<lparr>can_seek = True, cursor = 0\<rparr> None
     = ((Some 0, None), \<lparr>can_seek = True, cursor = 8\<rparr>) \<and>
   buf tape_decoder = frame_Decode tape_env 0 0 \<and>
   buf tape_decoder \<noteq> frame_Decode tape_env 0 1 \<and>
   GetVolume tape_decoder = 1"
  using NewDecoder_first_frame_volume_zero [OF tape_NewDecoder] tape_NewDecoder
  by (auto simp: tape_env_def tape_frame_Read_def tape_Decode_def)

text \<open>
  Claim C10, as amended. Write \<open>T\<close> for \<^verbatim>\<open>int64(float64(frameCount) * w)\<close> as the code
  computes it, the product rounded to \<^verbatim>\<open>float64\<close>. When \<open>T = 0\<close> (as for \<open>w = 0\<close>, by
  \<open>target_frame_zero\<close>), the lookback loop ends with
  frame index 0 and offset 0; a successful \<^verbatim>\<open>SeekPercent(w)\<close> returns 0, reads no frame (it
  only clears the frame state, sets the position to 0 and moves the source to
  \<open>frameStarts[0]\<close>) and leaves the buffer as it was, so that the next \<^verbatim>\<open>Read\<close> delivers the
  bytes buffered before the call.
\<close>

theorem SeekPercent_start_keeps_buffer:
  assumes tgt: "target_frame E (length (frameStarts d)) w = 0"
    and ok: "SeekPercent E w d = (Returns r None, d')"
  shows "lookback (wrap64 (target_frame E (length (frameStarts d)) w - 4)) 4 = (0, 0) \<and> r = 0 \<and>
         buf d' = buf d \<and>
         (\<exists>x s1. source_Seek E (source d) (frameStarts d ! 0) SeekStart = (Inr x, s1) \<and>
                 d' = d\<lparr>frame := None, pos := 0, source := s1\<rparr>) \<and>
         (buf d \<noteq> [] \<longrightarrow>
            (\<exists>d''. Read E b d' =
               Some ((Returns (int (min (length b) (length (buf d)))) None,
                      take (min (length b) (length (buf d))) (buf d)
                        @ drop (min (length b) (length (buf d))) b), d'') \<and>
                    buf d'' = drop (min (length b) (length (buf d))) (buf d)))"
proof -
  have lb: "lookback (wrap64 (target_frame E (length (frameStarts d)) w - 4)) 4 = (0, 0)"
    by (simp add: tgt lookback_eq wrap64_def)
  from SeekPercent_ok_cases [OF ok] obtain frameIndex offset x s1 d3 where
    nm: "\<not> mux d"
    and lb': "lookback (wrap64 (target_frame E (length (frameStarts d)) w - 4)) 4
                = (frameIndex, offset)"
    and sk': "source_Seek E (source d) (frameStarts d ! nat frameIndex) SeekStart = (Inr x, s1)"
    and pr': "preread E 0 offset frameIndex
              (d\<lparr>mux := True, frame := None, pos := wrap64 (bytesPerFrame d * frameIndex),
                 source := s1\<rparr>) = (Returns () None, d3)"
    and r: "r = pos d3" and d': "d' = d3\<lparr>mux := False\<rparr>"
    by blast
  from lb lb' have z: "frameIndex = 0" "offset = 0" by simp_all
  from sk' z have sk: "source_Seek E (source d) (frameStarts d ! 0) SeekStart = (Inr x, s1)"
    by simp
  from pr' z have
    pr: "preread E 0 0 0 (d\<lparr>mux := True, frame := None, pos := wrap64 0, source := s1\<rparr>)
              = (Returns () None, d3)"
    by simp
  have w0: "wrap64 0 = 0" by (simp add: wrap64_def)
  from pr have d3: "d3 = d\<lparr>mux := True, frame := None, pos := 0, source := s1\<rparr>"
    by (simp add: preread_none w0)
  have d'eq: "d' = d\<lparr>frame := None, pos := 0, source := s1\<rparr>"
    using nm by (simp add: d' d3)
  have rd: "buf d \<noteq> [] \<longrightarrow>
            (\<exists>d''. Read E b d' =
               Some ((Returns (int (min (length b) (length (buf d)))) None,
                      take (min (length b) (length (buf d))) (buf d)
                        @ drop (min (length b) (length (buf d))) b), d'') \<and>
                    buf d'' = drop (min (length b) (length (buf d))) (buf d))"
    using nm by (simp add: d'eq Read_def fill.simps Let_def)
  from lb r d3 d'eq sk rd show ?thesis by simp
qed

theorem SeekPercent_start_keeps_buffer_witness:
  "target_frame tape_env (length (frameStarts tape_decoder)) (Finite 0) = 0 \<and>
   SeekPercent tape_env (Finite 0) tape_decoder = (Returns 0 None, tape_rewound) \<and>
   buf tape_rewound = buf tape_decoder \<and> buf tape_decoder = [0, 0, 0, 0] \<and>
   (\<exists>d''. Read tape_env [7, 7] tape_rewound = Some ((Returns 2 None, [0, 0]), d'') \<and>
          buf d'' = [0, 0])"
  using SeekPercent_start_keeps_buffer [OF tape_target_zero tape_SeekPercent_zero, of "[7, 7]"]
    tape_target_zero tape_SeekPercent_zero
  by (simp add: tape_decoder_def)

text \<open>
  Claim C10 as stated fails on the three-frame stream for the \<^verbatim>\<open>float64\<close>
  \<^verbatim>\<open>0.3333333333333333\<close>: it lies below \<open>1/3\<close> and \<open>\<lfloor>3 * w\<rfloor> = 0\<close>, but the product rounds to
  \<open>1.0\<close> in \<^verbatim>\<open>float64\<close>, so the code keeps a lookback of one frame, pre-reads frame 0 and
  replaces the buffered bytes, while it reports position 0.
\<close>

theorem SeekPercent_rounded_product_counterexample:
  "NewDecoder reel_env \<lparr>can_seek = True, cursor = 0\<rparr> = Some (Returns (Some reel_decoder) None) \<and>
   length (frameStarts reel_decoder) = 3 \<and>
   f64_round third = Finite third \<and> 0 \<le> third \<and> third < 1 / 3 \<and>
   \<lfloor>real (length (frameStarts reel_decoder)) * third\<rfloor> = 0 \<and>
   f64_mul (f64_of_int 3) (Finite third) = Finite 1 \<and>
   target_frame reel_env (length (frameStarts reel_decoder)) (Finite third) = 1 \<and>
   lookback (wrap64 (target_frame reel_env (length (frameStarts reel_decoder)) (Finite third) - 4)) 4
     = (0, 1) \<and>
   SeekPercent reel_env (Finite third) reel_decoder = (Returns 0 None, reel_primed) \<and>
   buf reel_decoder = [0, 0, 0, 0] \<and> buf reel_primed = [0, 1, 2, 3]"
proof -
  have a: "length (frameStarts reel_decoder) = 3" by (simp add: reel_decoder_def)
  have b: "f64_round third = Finite third" by (simp add: third_def f64_eval)
  have c: "0 \<le> third \<and> third < 1 / 3" by (simp add: third_def)
  have d: "\<lfloor>real (length (frameStarts reel_decoder)) * third\<rfloor> = 0"
    by (simp add: a third_def)
  have e: "f64_mul (f64_of_int 3) (Finite third) = Finite 1"
    by (simp add: third_def f64_eval)
  have f: "lookback (wrap64 (target_frame reel_env (length (frameStarts reel_decoder))
             (Finite third) - 4)) 4 = (0, 1)"
    by (simp add: reel_target_third lookback_eq wrap64_def)
  have g: "buf reel_decoder = [0, 0, 0, 0] \<and> buf reel_primed = [0, 1, 2, 3]"
    by (simp add: reel_decoder_def reel_primed_def)
  from a b c d e f g reel_NewDecoder reel_target_third reel_SeekPercent_third
  show ?thesis by blast
qed

end
